theory Spec2Isabelle
  imports Complex_Main "HOL-Library.Word"
begin

unbundle bit_operations_syntax

section \<open>Values shared by the physics layer\<close>

text \<open>
  The layer is \<open>src/physics/physics.ts\<close> (the \<open>Physics\<close> singleton: coordinate conversion,
  category registry, contact queue) and \<open>src/physics/rigidBody.ts\<close> (the \<open>RigidBody\<close>
  script). Line numbers refer to these two files. An earlier, module-level version of
  \<open>physics.ts\<close> has the same function bodies. planck (the solver) and liko (scene nodes,
  scripts, rectangles, the timer) are outside the layer: what the code asks of them is a
  field or a parameter of the model.

  Lengths, coordinates and angles are JavaScript numbers, that is binary64 values. Where
  the layer only passes them on, adds them and compares them, they are read as
  \<^typ>\<open>real\<close>. The four coordinate conversions are given twice: on reals (the exact
  quotient and product, which the body and shape code below uses) and on binary64 values
  with rounding, underflow and overflow (\<open>toPhy64\<close>, \<open>to2D64\<close>, \<open>toPhyPos64\<close>,
  \<open>to2DPos64\<close>), where a round trip is not exact. \<open>IPoint\<close> is the \<open>{x, y}\<close> object of liko.
\<close>

record ipoint =
  px :: real
  py :: real

text \<open>liko's \<open>Rectangle\<close>; the code reads \<open>width\<close> and \<open>height\<close> and calls \<open>contains\<close>.\<close>

record rectangle =
  rect_x :: real
  rect_y :: real
  rect_width :: real
  rect_height :: real

subsection \<open>Coordinate conversion (physics.ts, lines 6-34)\<close>

definition pixelRatio :: real where
  "pixelRatio = 50"

definition toPhy :: "real \<Rightarrow> real" where
  "toPhy v = v / pixelRatio"

definition to2D :: "real \<Rightarrow> real" where
  "to2D v = v * pixelRatio"

definition toPhyPos :: "ipoint \<Rightarrow> ipoint" where
  "toPhyPos pos = \<lparr>px = px pos / pixelRatio, py = py pos / pixelRatio\<rparr>"

definition to2DPos :: "ipoint \<Rightarrow> ipoint" where
  "to2DPos pos = \<lparr>px = px pos * pixelRatio, py = py pos * pixelRatio\<rparr>"

subsection \<open>The conversions on binary64 numbers\<close>

text \<open>
  A JavaScript number is a binary64 value: a finite number, one of the two infinities, or
  NaN. A finite value is kept as the real number it denotes (the sign of a zero is not
  kept: \<open>-0\<close> and \<open>0\<close> are the one value \<open>Fin 0\<close>, as they are for \<open>===\<close>).
\<close>

datatype double = Fin real | PosInf | NegInf | NaN

text \<open>
  The result of \<open>/\<close> and \<open>*\<close> is the exact quotient or product rounded to the nearest binary64
  value, ties to even (IEEE 754, which ECMAScript prescribes). A real of binary exponent
  \<open>e\<close> is rounded to a multiple of \<open>2 ^ (e - 52)\<close>; below the exponent -1022 the spacing
  stays \<open>2 ^ -1074\<close> (gradual underflow, down to 0). A real whose magnitude reaches
  \<open>2 ^ 1024 - 2 ^ 970\<close>, halfway between the largest finite value and \<open>2 ^ 1024\<close>, rounds to
  an infinity. \<open>eps64\<close> is the unit roundoff and \<open>eta64\<close> half the least subnormal number.
\<close>

definition overflowThreshold :: real where
  "overflowThreshold = 2 ^ 1024 - 2 ^ 970"

definition eps64 :: real where
  "eps64 = 1 / 2 ^ 53"

definition eta64 :: real where
  "eta64 = 1 / 2 ^ 1075"

definition roundHalfEven :: "real \<Rightarrow> int" where
  "roundHalfEven z =
     (let f = \<lfloor>z\<rfloor> in
      if z - of_int f < 1 / 2 then f
      else if 1 / 2 < z - of_int f then f + 1
      else if even f then f else f + 1)"

definition exponent64 :: "real \<Rightarrow> int" where
  "exponent64 x = max \<lfloor>log 2 \<bar>x\<bar>\<rfloor> (- 1022)"

definition ulp64 :: "real \<Rightarrow> real" where
  "ulp64 x = 2 powr (of_int (exponent64 x) - 52)"

definition round64 :: "real \<Rightarrow> real" where
  "round64 x = of_int (roundHalfEven (x / ulp64 x)) * ulp64 x"

definition fl64 :: "real \<Rightarrow> double" where
  "fl64 x =
     (if overflowThreshold \<le> \<bar>x\<bar> then (if 0 < x then PosInf else NegInf)
      else Fin (round64 x))"

text \<open>
  \<open>toPhy\<close> and \<open>to2D\<close> on binary64 values: \<open>value / pixelRatio\<close> and \<open>value * pixelRatio\<close> with
  the positive finite ratio 50; an infinity keeps its sign, NaN stays NaN.
\<close>

definition toPhy64 :: "double \<Rightarrow> double" where
  "toPhy64 v = (case v of Fin x \<Rightarrow> fl64 (x / pixelRatio) | PosInf \<Rightarrow> PosInf
                | NegInf \<Rightarrow> NegInf | NaN \<Rightarrow> NaN)"

definition to2D64 :: "double \<Rightarrow> double" where
  "to2D64 v = (case v of Fin x \<Rightarrow> fl64 (x * pixelRatio) | PosInf \<Rightarrow> PosInf
                | NegInf \<Rightarrow> NegInf | NaN \<Rightarrow> NaN)"

text \<open>\<open>toPhyPos\<close> and \<open>to2DPos\<close> on a point with binary64 coordinates.\<close>

record dpoint =
  dx :: double
  dy :: double

definition toPhyPos64 :: "dpoint \<Rightarrow> dpoint" where
  "toPhyPos64 pt = \<lparr>dx = toPhy64 (dx pt), dy = toPhy64 (dy pt)\<rparr>"

definition to2DPos64 :: "dpoint \<Rightarrow> dpoint" where
  "to2DPos64 pt = \<lparr>dx = to2D64 (dx pt), dy = to2D64 (dy pt)\<rparr>"

text \<open>
  The distance a round trip can put between a finite value and what comes back, and the
  values for which dividing first and multiplying afterwards cannot overflow.
\<close>

definition roundTripBound :: "real \<Rightarrow> real" where
  "roundTripBound v = \<bar>v\<bar> * (2 * eps64 + eps64 ^ 2) + eta64 * (51 + 50 * eps64)"

definition inRange64 :: "real \<Rightarrow> bool" where
  "inRange64 v \<longleftrightarrow> \<bar>v\<bar> * (1 + eps64) + 50 * eta64 < overflowThreshold"

subsection \<open>What a property read of the category map can yield\<close>

text \<open>
  \<open>_categoryMap\<close> is a plain object literal \<open>{}\<close> indexed by the category name, and
  the stored values are \<open>2 ** _count\<close>. A read \<open>_categoryMap[name]\<close> yields
  \<^item> the own property when the name was stored before,
  \<^item> else the property every plain object inherits from \<open>Object.prototype\<close>
    (a function, or the prototype object for \<open>__proto__\<close>), when the name is one of those,
  \<^item> else \<open>undefined\<close>.
  \<open>2 ** n\<close> is a double: the exact power of two up to exponent 1023, \<open>Infinity\<close> above.
\<close>

datatype jsval = Undefined | Num nat | Infinity | Inherited string

fun truthy :: "jsval \<Rightarrow> bool" where
  "truthy Undefined = False"
| "truthy (Num n) = (n \<noteq> 0)"
| "truthy Infinity = True"
| "truthy (Inherited k) = True"

definition jsPow2 :: "nat \<Rightarrow> jsval" where
  "jsPow2 n = (if n \<le> 1023 then Num (2 ^ n) else Infinity)"

text \<open>
  \<open>ToInt32\<close>, applied by \<open>|\<close> to both operands: an integer is taken modulo \<open>2^32\<close>;
  \<open>Infinity\<close>, \<open>undefined\<close> and objects (through \<open>NaN\<close>) give 0. The 32-bit result of
  \<open>|\<close> is read as a signed number (\<^term>\<open>sint\<close>).
\<close>

fun toInt32 :: "jsval \<Rightarrow> 32 word" where
  "toInt32 (Num n) = word_of_nat n"
| "toInt32 Undefined = 0"
| "toInt32 Infinity = 0"
| "toInt32 (Inherited k) = 0"

definition objectPrototypeKeys :: "string list" where
  "objectPrototypeKeys =
     [''constructor'', ''__proto__'', ''__defineGetter__'', ''__defineSetter__'',
      ''__lookupGetter__'', ''__lookupSetter__'', ''hasOwnProperty'', ''isPrototypeOf'',
      ''propertyIsEnumerable'', ''toLocaleString'', ''toString'', ''valueOf'']"

definition getProp :: "(string \<rightharpoonup> jsval) \<Rightarrow> string \<Rightarrow> jsval" where
  "getProp m k =
     (case m k of
        Some v \<Rightarrow> v
      | None \<Rightarrow> if k \<in> set objectPrototypeKeys then Inherited k else Undefined)"

section \<open>Solver objects as this layer sees them\<close>

text \<open>
  The shapes handed to planck: \<open>new pl.Box(hw, hh, center)\<close>, \<open>new pl.Circle(center, radius)\<close>,
  \<open>new pl.Edge(v1, v2)\<close>, \<open>new pl.Polygon(vertices)\<close>.
\<close>

datatype pl_shape =
    Box real real ipoint
  | Circle ipoint real
  | Edge ipoint ipoint
  | Polygon "ipoint list"

text \<open>
  A fixture as \<open>createFixture(shape, options)\<close> and \<open>setUserData\<close> leave it. The user
  data is the \<open>{crossSide}\<close> object of \<open>addShape\<close>, kept as its tag; \<open>None\<close> is a
  fixture without user data. \<open>filterMaskBits\<close> is the number handed to planck: the signed
  reading of a computed mask, or the number a descriptor brings along.
\<close>

record fixture =
  f_shape :: pl_shape
  density :: real
  f_isSensor :: bool
  filterGroupIndex :: int
  filterCategoryBits :: jsval
  filterMaskBits :: int
  f_userData :: "string option"

text \<open>
  A planck \<open>Contact\<close> as the handlers read it at one moment: both fixtures (planck
  types them non-null), the user data of each fixture's body
  (\<open>getFixtureA()?.getBody().getUserData()\<close>, a reference to the owning \<open>RigidBody\<close> or
  \<open>undefined\<close>), the manifold's local normal and the flag \<open>setEnabled\<close> writes. The
  object itself belongs to the solver and is known to this layer by its handle, a \<open>nat\<close>.
\<close>

record contact =
  fixtureA :: fixture
  bodyA :: "nat option"
  fixtureB :: fixture
  bodyB :: "nat option"
  localNormal :: ipoint
  c_enabled :: bool

record body =
  b_type :: string
  fixtures :: "fixture list"
  position :: ipoint
  angle :: real
  active :: bool
  b_userData :: "nat option"

section \<open>Physics (physics.ts)\<close>

text \<open>
  The fields of \<open>class Physics\<close> this layer owns. \<open>contacts\<close> is the array
  \<open>_contacts\<close>: \<open>onContact\<close> pushes the two slots \<open>type, contact\<close> together and
  \<open>update\<close> reads them two at a time, so entry \<open>k\<close> of the list stands for the slots
  \<open>2k\<close> and \<open>2k + 1\<close>. The second slot is the handle of the \<open>Contact\<close>, not a copy
  of it.
\<close>

record physics =
  count :: nat
  categoryMap :: "string \<rightharpoonup> jsval"
  contacts :: "(nat \<times> nat) list"
  enabled :: bool
  boundaryArea :: "rectangle option"

definition newPhysics :: physics where
  "newPhysics =
     \<lparr>count = 1, categoryMap = Map.empty, contacts = [], enabled = False,
      boundaryArea = None\<rparr>"

subsection \<open>The pre-solve handler (lines 50-69)\<close>

definition preSolve :: "contact \<Rightarrow> contact" where
  "preSolve c =
     (case f_userData (fixtureA c) of
        None \<Rightarrow> c
      | Some side \<Rightarrow>
          if side = [] then c
          else
            let normal = localNormal c in
            if side = ''left'' then (if px normal < - (1 / 2) then c\<lparr>c_enabled := False\<rparr> else c)
            else if side = ''right'' then (if px normal > 1 / 2 then c\<lparr>c_enabled := False\<rparr> else c)
            else if side = ''top'' then (if py normal < - (1 / 2) then c\<lparr>c_enabled := False\<rparr> else c)
            else if side = ''bottom'' then (if py normal > 1 / 2 then c\<lparr>c_enabled := False\<rparr> else c)
            else c)"

subsection \<open>\<open>onContact\<close> (lines 72-78)\<close>


subsection \<open>\<open>inBoundaryArea\<close> (lines 143-146)\<close>

text \<open>\<open>Rectangle.contains\<close> belongs to liko; it is the parameter \<open>contains\<close>.\<close>

definition inBoundaryArea ::
  "(rectangle \<Rightarrow> real \<Rightarrow> real \<Rightarrow> bool) \<Rightarrow> physics \<Rightarrow> ipoint \<Rightarrow> bool" where
  "inBoundaryArea contains p pos =
     (case boundaryArea p of
        None \<Rightarrow> True
      | Some area \<Rightarrow> contains area (px pos) (py pos))"

subsection \<open>\<open>getCategoryBit\<close> (lines 151-158)\<close>

text \<open>
  The argument is \<open>None\<close> for \<open>undefined\<close>. \<open>!category\<close> holds for \<open>undefined\<close> and for
  the empty string. The result is paired with the registry the call leaves behind.
\<close>

definition getCategoryBit :: "physics \<Rightarrow> string option \<Rightarrow> jsval \<times> physics" where
  "getCategoryBit p category =
     (case category of
        None \<Rightarrow> (Num 1, p)
      | Some c \<Rightarrow>
          if c = [] then (Num 1, p)
          else
            let p' =
              (if \<not> truthy (getProp (categoryMap p) c)
               then p\<lparr>categoryMap := (categoryMap p)(c \<mapsto> jsPow2 (count p)),
                      count := count p + 1\<rparr>
               else p)
            in (getProp (categoryMap p') c, p'))"

subsection \<open>\<open>getCategoryMask\<close> (lines 163-170)\<close>

fun maskLoop :: "string list \<Rightarrow> 32 word \<Rightarrow> physics \<Rightarrow> 32 word \<times> physics" where
  "maskLoop [] num p = (num, p)"
| "maskLoop (name # names) num p =
     (case getCategoryBit p (Some name) of
        (b, p') \<Rightarrow> maskLoop names (num OR toInt32 b) p')"

definition getCategoryMask :: "physics \<Rightarrow> string list option \<Rightarrow> 32 word \<times> physics" where
  "getCategoryMask p masks =
     (case masks of
        None \<Rightarrow> (65535, p)
      | Some ms \<Rightarrow> if length ms = 0 then (65535, p) else maskLoop ms 0 p)"

text \<open>Any sequence of calls of \<open>getCategoryBit\<close>, results dropped.\<close>

fun calls :: "string option list \<Rightarrow> physics \<Rightarrow> physics" where
  "calls [] p = p"
| "calls (c # cs) p = calls cs (snd (getCategoryBit p c))"

text \<open>
  The distinct names of a call sequence that are neither empty nor a property name a
  plain object inherits, in the order of their first use.
\<close>

fun uses :: "string list \<Rightarrow> string option list \<Rightarrow> string list" where
  "uses seen [] = seen"
| "uses seen (None # cs) = uses seen cs"
| "uses seen (Some n # cs) =
     (if n \<noteq> [] \<and> n \<notin> set objectPrototypeKeys \<and> n \<notin> set seen
      then uses (seen @ [n]) cs else uses seen cs)"

definition firstUses :: "string option list \<Rightarrow> string list" where
  "firstUses cs = uses [] cs"

section \<open>RigidBody (rigidBody.ts)\<close>

text \<open>
  The owning scene node (liko's), reduced to what the binding reads and writes. The
  results of the node's own queries are fields: \<open>listeners\<close> holds the event names
  \<open>hasListener\<close> answers true for, \<open>worldBounds\<close> is \<open>getWorldBounds(scene)\<close>,
  \<open>worldOrigin\<close> is \<open>toWorldPoint((0, 0), scene)\<close>; \<open>n_destroyed\<close> records a call of
  \<open>destroy()\<close>.
\<close>

record node =
  pos :: ipoint
  pivot :: ipoint
  rotation :: real
  parent :: "nat option"
  listeners :: "string list"
  worldBounds :: rectangle
  worldOrigin :: ipoint
  n_destroyed :: bool

text \<open>
  \<open>IShape\<close> (declared in liko): the fields \<open>addShape\<close> reads, and the five option keys
  the object literal of line 206 sets before it spreads the descriptor over them
  (\<open>...shape\<close> comes last, so a key the descriptor has wins). An absent key is \<open>None\<close>.
  Other keys a descriptor may carry reach planck unchanged and are not part of the
  record.
\<close>

record ishape =
  shapeType :: string
  width :: "real option"
  height :: "real option"
  offset :: "ipoint option"
  points :: "ipoint list option"
  crossSide :: "string option"
  shape_density :: "real option"
  shape_isSensor :: "bool option"
  shape_filterGroupIndex :: "int option"
  shape_filterCategoryBits :: "jsval option"
  shape_filterMaskBits :: "int option"

text \<open>
  The binding: the fields of \<open>RigidBody\<close>, the fields of \<open>ScriptBase\<close> it reads
  (\<open>awaked\<close>, \<open>destroyed\<close>, \<open>scene\<close>, \<open>target\<close>) and its body \<open>_body\<close>. The accessor
  pairs that only forward to the body are left out.
\<close>

record rigid_body =
  rigidType :: string
  shapes :: "ishape list"
  category :: string
  isSensor :: bool
  categoryAccepted :: "string list option"
  awaked :: bool
  destroyed :: bool
  scene :: "nat option"
  target :: node
  body_of :: body

datatype error = Error string | TypeError

subsection \<open>\<open>addShape\<close> (lines 200-254)\<close>

text \<open>
  The local offset of lines 220-221. \<open>+\<close> binds tighter than \<open>??\<close>, so the expression
  is \<open>shape.offset?.x ?? (0 + target.pivot.x)\<close>.
\<close>

definition shapeOffset :: "ishape \<Rightarrow> node \<Rightarrow> real \<times> real" where
  "shapeOffset shape tgt =
     (toPhy (case offset shape of Some off \<Rightarrow> px off | None \<Rightarrow> 0 + px (pivot tgt)),
      toPhy (case offset shape of Some off \<Rightarrow> py off | None \<Rightarrow> 0 + py (pivot tgt)))"

text \<open>The \<open>switch\<close> over \<open>shape.shapeType\<close>; it has no default, so any other tag makes no fixture.\<close>

definition shapeGeometry :: "ishape \<Rightarrow> node \<Rightarrow> pl_shape option" where
  "shapeGeometry shape tgt =
     (let bounds = worldBounds tgt;
          w = (case width shape of Some v \<Rightarrow> v | None \<Rightarrow> rect_width bounds);
          h = (case height shape of Some v \<Rightarrow> v | None \<Rightarrow> rect_height bounds);
          offsetX = fst (shapeOffset shape tgt);
          offsetY = snd (shapeOffset shape tgt)
      in
        if shapeType shape = ''box'' then
          (let hw = toPhy w / 2; hh = toPhy h / 2
           in Some (Box hw hh \<lparr>px = hw + offsetX, py = hh + offsetY\<rparr>))
        else if shapeType shape = ''circle'' then
          Some (Circle \<lparr>px = offsetX, py = offsetY\<rparr> (toPhy w))
        else if shapeType shape = ''edge'' then
          Some (Edge \<lparr>px = offsetX, py = offsetY\<rparr> \<lparr>px = offsetX + toPhy w, py = offsetY\<rparr>)
        else if shapeType shape = ''polygon'' then
          Some (Polygon (map toPhyPos (case points shape of Some ps \<Rightarrow> ps | None \<Rightarrow> [])))
        else None)"

text \<open>
  \<open>addShape\<close> works on the \<open>physics\<close> singleton (the category registry) and on the
  binding. The options are evaluated in the order of the object literal:
  \<open>getCategoryBit\<close> first, \<open>getCategoryMask\<close> second, both before the spread, which
  then replaces each computed option the descriptor has a key for.
\<close>

definition addShape :: "ishape \<Rightarrow> physics \<times> rigid_body \<Rightarrow> physics \<times> rigid_body" where
  "addShape shape st =
     (case st of (ph, rb) \<Rightarrow>
        if \<not> awaked rb then (ph, rb\<lparr>shapes := shapes rb @ [shape]\<rparr>)
        else
          (case getCategoryBit ph (Some (category rb)) of (categoryBits, ph1) \<Rightarrow>
           case getCategoryMask ph1 (categoryAccepted rb) of (maskBits, ph2) \<Rightarrow>
             (case shapeGeometry shape (target rb) of
                None \<Rightarrow> (ph2, rb)
              | Some g \<Rightarrow>
                  (ph2,
                   rb\<lparr>body_of := (body_of rb)\<lparr>fixtures := fixtures (body_of rb) @
                     [\<lparr>f_shape = g,
                       density = (case shape_density shape of Some d \<Rightarrow> d | None \<Rightarrow> 1),
                       f_isSensor =
                         (case shape_isSensor shape of Some b \<Rightarrow> b | None \<Rightarrow> isSensor rb),
                       filterGroupIndex =
                         (case shape_filterGroupIndex shape of Some g \<Rightarrow> g | None \<Rightarrow> 0),
                       filterCategoryBits =
                         (case shape_filterCategoryBits shape of
                            Some b \<Rightarrow> b
                          | None \<Rightarrow> categoryBits),
                       filterMaskBits =
                         (case shape_filterMaskBits shape of
                            Some m \<Rightarrow> m
                          | None \<Rightarrow> sint maskBits),
                       f_userData =
                         (case crossSide shape of
                            None \<Rightarrow> None
                          | Some side \<Rightarrow> if side = [] then None else Some side)\<rparr>]\<rparr>\<rparr>))))"

subsection \<open>\<open>onAwake\<close> (lines 147-168)\<close>

text \<open>
  \<open>for (const shape of this.shapes) this.addShape(shape)\<close> walks the live array: an
  \<open>addShape\<close> that only buffers (the binding not \<open>awaked\<close>) makes the array longer
  while it is walked. The loop is therefore a partial function of the index; not
  returning is \<open>None\<close>.
\<close>

partial_function (option) realizeShapes ::
  "nat \<Rightarrow> physics \<times> rigid_body \<Rightarrow> (physics \<times> rigid_body) option" where
  "realizeShapes i st =
     (if i < length (shapes (snd st))
      then realizeShapes (Suc i) (addShape (shapes (snd st) ! i) st)
      else Some st)"

text \<open>
  \<open>self\<close> is the reference \<open>this\<close> that \<open>setUserData\<close> stores in the body. The result
  pairs what was thrown (if anything) with the state the call leaves behind.
\<close>

definition onAwake ::
  "nat \<Rightarrow> physics \<times> rigid_body \<Rightarrow> (error option \<times> physics \<times> rigid_body) option" where
  "onAwake self st =
     (case st of (ph, rb) \<Rightarrow>
        (case scene rb of
           None \<Rightarrow> Some (Some (Error ''Please add to a scene first''), st)
         | Some sc \<Rightarrow>
             let b = body_of rb;
                 b1 = (if rigidType rb = ''dynamic'' then b\<lparr>b_type := ''dynamic''\<rparr>
                       else if rigidType rb = ''static'' then b\<lparr>b_type := ''static''\<rparr>
                       else b);
                 st1 = (ph, rb\<lparr>body_of := b1\<rparr>)
             in
               (case (if length (shapes rb) \<noteq> 0 then realizeShapes 0 st1
                      else Some (addShape \<lparr>shapeType = ''box'', width = None, height = None,
                                   offset = None, points = None, crossSide = None,
                                   shape_density = None, shape_isSensor = None,
                                   shape_filterGroupIndex = None,
                                   shape_filterCategoryBits = None,
                                   shape_filterMaskBits = None\<rparr> st1)) of
                  None \<Rightarrow> None
                | Some (ph2, rb2) \<Rightarrow>
                    Some (None, ph2,
                      rb2\<lparr>body_of := (body_of rb2)\<lparr>
                        position := toPhyPos (worldOrigin (target rb2)),
                        angle := rotation (target rb2),
                        active := True,
                        b_userData := Some self\<rparr>\<rparr>))))"

subsection \<open>\<open>onUpdate\<close> (lines 170-188)\<close>

text \<open>
  \<open>contains\<close> is liko's \<open>Rectangle.contains\<close> and \<open>toLocalPoint p q sc\<close> is
  \<open>parent.toLocalPoint(q, q, scene)\<close> of the parent node \<open>p\<close>. \<open>target.destroy()\<close> is
  recorded in the node. \<open>this.target.parent!\<close> on a node without parent throws a
  \<open>TypeError\<close>.
\<close>

definition onUpdate ::
  "(rectangle \<Rightarrow> real \<Rightarrow> real \<Rightarrow> bool) \<Rightarrow> (nat \<Rightarrow> ipoint \<Rightarrow> nat option \<Rightarrow> ipoint) \<Rightarrow>
   physics \<Rightarrow> rigid_body \<Rightarrow> error option \<times> rigid_body" where
  "onUpdate contains toLocalPoint ph rb =
     (if rigidType rb = ''static'' then (None, rb)
      else
        let tgt = target rb;
            p = position (body_of rb);
            pos2D = to2DPos p
        in
          if \<not> inBoundaryArea contains ph pos2D
          then (None, rb\<lparr>target := tgt\<lparr>n_destroyed := True\<rparr>\<rparr>)
          else
            (case (if parent tgt \<noteq> scene rb
                   then (case parent tgt of
                           None \<Rightarrow> None
                         | Some pa \<Rightarrow> Some (toLocalPoint pa pos2D (scene rb)))
                   else Some pos2D) of
               None \<Rightarrow> (Some TypeError, rb)
             | Some q \<Rightarrow>
                 (None,
                  rb\<lparr>target := tgt\<lparr>
                    pos := \<lparr>px = px q + px (pivot tgt), py = py q + py (pivot tgt)\<rparr>,
                    rotation := angle (body_of rb)\<rparr>\<rparr>)))"

section \<open>The drain of the contact queue (\<open>Physics.update\<close>, lines 175-201)\<close>

text \<open>
  \<open>update\<close> works on the \<open>physics\<close> object, on the bindings the contacts refer to and
  on the solver's \<open>Contact\<close> objects: \<open>live w h\<close> is the object behind the handle \<open>h\<close> as
  it is in the state \<open>w\<close>. An emitted event is recorded with the binding whose \<open>target\<close>
  emitted it.
\<close>

record world =
  phys :: physics
  bindings :: "nat \<Rightarrow> rigid_body"
  live :: "nat \<Rightarrow> contact"

record emitted =
  receiver :: nat
  e_type :: string
  other :: "nat option"
  normal :: ipoint


text \<open>The guard \<open>!rb?.destroyed && rb?.target.hasListener(type)\<close>.\<close>

definition eligible :: "world \<Rightarrow> string \<Rightarrow> nat option \<Rightarrow> bool" where
  "eligible w ty side =
     (case side of
        None \<Rightarrow> False
      | Some r \<Rightarrow> \<not> destroyed (bindings w r) \<and> ty \<in> set (listeners (target (bindings w r))))"





section \<open>Concrete values for the examples\<close>

definition plainFixture :: fixture where
  "plainFixture =
     \<lparr>f_shape = Circle \<lparr>px = 0, py = 0\<rparr> 1, density = 1, f_isSensor = False,
      filterGroupIndex = 0, filterCategoryBits = Num 1, filterMaskBits = 65535,
      f_userData = None\<rparr>"

definition platformFixture :: fixture where
  "platformFixture = plainFixture\<lparr>f_userData := Some ''top''\<rparr>"

text \<open>A one-way platform met from below, the platform being fixture B of the contact.\<close>

definition contactPlatformB :: contact where
  "contactPlatformB =
     \<lparr>fixtureA = plainFixture, bodyA = Some 0, fixtureB = platformFixture, bodyB = Some 1,
      localNormal = \<lparr>px = 0, py = - 1\<rparr>, c_enabled = True\<rparr>"

definition rectContains :: "rectangle \<Rightarrow> real \<Rightarrow> real \<Rightarrow> bool" where
  "rectContains r a b =
     (rect_x r \<le> a \<and> a \<le> rect_x r + rect_width r \<and>
      rect_y r \<le> b \<and> b \<le> rect_y r + rect_height r)"

definition shiftBy :: "nat \<Rightarrow> ipoint \<Rightarrow> nat option \<Rightarrow> ipoint" where
  "shiftBy pa q sc = \<lparr>px = px q - 5, py = py q - 5\<rparr>"

definition sampleNode :: node where
  "sampleNode =
     \<lparr>pos = \<lparr>px = 0, py = 0\<rparr>, pivot = \<lparr>px = 10, py = 20\<rparr>, rotation = 0,
      parent = Some 7, listeners = [''collisionStart''],
      worldBounds = \<lparr>rect_x = 0, rect_y = 0, rect_width = 100, rect_height = 40\<rparr>,
      worldOrigin = \<lparr>px = 100, py = 200\<rparr>, n_destroyed = False\<rparr>"

definition sampleBody :: body where
  "sampleBody =
     \<lparr>b_type = ''kinematic'', fixtures = [], position = \<lparr>px = 3, py = 4\<rparr>, angle = 1,
      active = False, b_userData = None\<rparr>"

definition sampleBinding :: rigid_body where
  "sampleBinding =
     \<lparr>rigidType = ''dynamic'', shapes = [], category = [], isSensor = False,
      categoryAccepted = None, awaked = True, destroyed = False, scene = Some 7,
      target = sampleNode, body_of = sampleBody\<rparr>"

definition smallArea :: rectangle where
  "smallArea = \<lparr>rect_x = 0, rect_y = 0, rect_width = 100, rect_height = 100\<rparr>"

definition largeArea :: rectangle where
  "largeArea = \<lparr>rect_x = 0, rect_y = 0, rect_width = 1000, rect_height = 1000\<rparr>"

definition circleShape :: ishape where
  "circleShape =
     \<lparr>shapeType = ''circle'', width = Some 20, height = None, offset = None, points = None,
      crossSide = None, shape_density = None, shape_isSensor = None,
      shape_filterGroupIndex = None, shape_filterCategoryBits = None,
      shape_filterMaskBits = None\<rparr>"

text \<open>A triangle with an explicit offset, on a node whose pivot is (10, 20).\<close>

definition triangleShape :: ishape where
  "triangleShape =
     circleShape\<lparr>shapeType := ''polygon'', width := None,
       offset := Some \<lparr>px = 5, py = 15\<rparr>,
       points := Some [\<lparr>px = 0, py = 0\<rparr>, \<lparr>px = 50, py = 0\<rparr>, \<lparr>px = 0, py = 50\<rparr>]\<rparr>"








text \<open>
  Notions for the proofs about the registry. A call \<open>getCategoryBit(n)\<close> allocates when
  \<open>n\<close> is not empty and the read of the map is falsy. A registry is \<open>registered\<close> with
  the names \<open>seen\<close> when it is what allocating exactly these names in this order,
  starting from a new \<open>Physics\<close>, leaves behind.
\<close>

definition allocates :: "physics \<Rightarrow> string \<Rightarrow> bool" where
  "allocates p n = (n \<noteq> [] \<and> \<not> truthy (getProp (categoryMap p) n))"

definition registered :: "physics \<Rightarrow> string list \<Rightarrow> bool" where
  "registered p seen =
     (distinct seen \<and> [] \<notin> set seen \<and> set seen \<inter> set objectPrototypeKeys = {} \<and>
      count p = Suc (length seen) \<and>
      (\<forall>k < length seen. categoryMap p (seen ! k) = Some (jsPow2 (Suc k))) \<and>
      (\<forall>n. n \<notin> set seen \<longrightarrow> categoryMap p n = None))"

text \<open>The names \<open>a\<close>, \<open>aa\<close>, \<open>aaa\<close>, ... and a short call sequence.\<close>

fun aNames :: "nat \<Rightarrow> string list" where
  "aNames 0 = []"
| "aNames (Suc n) = aNames n @ [replicate (Suc n) (CHR ''a'')]"

definition exampleCalls :: "string option list" where
  "exampleCalls =
     [Some ''wall'', None, Some ''constructor'', Some ''ball'', Some ''wall'', Some []]"

section \<open>Coordinate conversion\<close>

subsection \<open>Rounding to binary64\<close>

lemma roundHalfEven_error: "\<bar>of_int (roundHalfEven z) - z\<bar> \<le> 1 / 2"
  unfolding roundHalfEven_def Let_def
  by (auto simp: abs_le_iff)

lemma ulp64_pos: "0 < ulp64 x"
  by (simp add: ulp64_def)

lemma round64_half_ulp: "\<bar>round64 x - x\<bar> \<le> ulp64 x / 2"
proof -
  have u: "0 < ulp64 x" by (rule ulp64_pos)
  have "round64 x - x = (of_int (roundHalfEven (x / ulp64 x)) - x / ulp64 x) * ulp64 x"
    using u by (simp add: round64_def field_simps)
  then have "\<bar>round64 x - x\<bar> = \<bar>of_int (roundHalfEven (x / ulp64 x)) - x / ulp64 x\<bar> * ulp64 x"
    using u by (simp add: abs_mult)
  also have "\<dots> \<le> 1 / 2 * ulp64 x"
    using roundHalfEven_error [of "x / ulp64 x"] u by (intro mult_right_mono) simp_all
  finally show ?thesis by simp
qed

lemma round64_zero: "round64 0 = 0"
  by (simp add: round64_def roundHalfEven_def)

lemma ulp64_normal:
  assumes "x \<noteq> 0" and "- 1022 \<le> \<lfloor>log 2 \<bar>x\<bar>\<rfloor>"
  shows "ulp64 x / 2 \<le> eps64 * \<bar>x\<bar>"
proof -
  have e: "exponent64 x = \<lfloor>log 2 \<bar>x\<bar>\<rfloor>"
    using assms(2) by (simp add: exponent64_def)
  have "of_int \<lfloor>log 2 \<bar>x\<bar>\<rfloor> \<le> log 2 \<bar>x\<bar>" by simp
  then have "2 powr (of_int \<lfloor>log 2 \<bar>x\<bar>\<rfloor>) \<le> 2 powr (log 2 \<bar>x\<bar>)"
    by simp
  also have "\<dots> = \<bar>x\<bar>" using assms(1) by simp
  finally have le: "2 powr (of_int \<lfloor>log 2 \<bar>x\<bar>\<rfloor>) \<le> \<bar>x\<bar>" .
  have "ulp64 x / 2 = 2 powr (of_int \<lfloor>log 2 \<bar>x\<bar>\<rfloor>) * (2 powr (- 52) / 2)"
    by (simp add: ulp64_def e powr_diff powr_minus divide_simps)
  also have "2 powr (- 52) / 2 = eps64"
    by (simp add: eps64_def powr_minus powr_realpow [symmetric] divide_simps)
  finally have "ulp64 x / 2 = eps64 * 2 powr (of_int \<lfloor>log 2 \<bar>x\<bar>\<rfloor>)" by simp
  also have "\<dots> \<le> eps64 * \<bar>x\<bar>"
    using le by (intro mult_left_mono) (simp_all add: eps64_def)
  finally show ?thesis .
qed

lemma ulp64_subnormal:
  assumes "\<not> - 1022 \<le> \<lfloor>log 2 \<bar>x\<bar>\<rfloor>"
  shows "ulp64 x / 2 = eta64"
proof -
  have e: "exponent64 x = - 1022"
    using assms by (simp add: exponent64_def)
  have "ulp64 x = 2 powr (- 1074)"
    by (simp add: ulp64_def e)
  also have "\<dots> = 1 / 2 ^ 1074"
    by (simp add: powr_minus powr_realpow [symmetric] divide_simps)
  finally show ?thesis by (simp add: eta64_def)
qed

lemma round64_error: "\<bar>round64 x - x\<bar> \<le> eps64 * \<bar>x\<bar> + eta64"
proof (cases "x = 0")
  case True
  then show ?thesis by (simp add: round64_zero eta64_def)
next
  case nz: False
  have e0: "0 \<le> eps64 * \<bar>x\<bar>" by (simp add: eps64_def)
  have h0: "0 \<le> eta64" by (simp add: eta64_def)
  show ?thesis
  proof (cases "- 1022 \<le> \<lfloor>log 2 \<bar>x\<bar>\<rfloor>")
    case True
    then show ?thesis
      using round64_half_ulp [of x] ulp64_normal [OF nz True] h0 by linarith
  next
    case False
    then show ?thesis
      using round64_half_ulp [of x] ulp64_subnormal [OF False] e0 by linarith
  qed
qed


lemma eps64_nonneg: "0 \<le> eps64"
  by (simp add: eps64_def)

lemma eta64_nonneg: "0 \<le> eta64"
  by (simp add: eta64_def)

lemma fl64_finite: "\<bar>x\<bar> < overflowThreshold \<Longrightarrow> fl64 x = Fin (round64 x)"
  by (simp add: fl64_def)

lemma fl64_overflow:
  "overflowThreshold \<le> \<bar>x\<bar> \<Longrightarrow> fl64 x = (if 0 < x then PosInf else NegInf)"
  by (simp add: fl64_def)

lemma magnitude_after_rounding:
  fixes a x e h :: real
  assumes "\<bar>a - x\<bar> \<le> e * \<bar>x\<bar> + h"
  shows "\<bar>a\<bar> \<le> \<bar>x\<bar> + e * \<bar>x\<bar> + h"
  using assms by linarith

lemma scale_up_then_down:
  fixes a b v e h :: real
  assumes e1: "\<bar>a - v * 50\<bar> \<le> e * \<bar>v * 50\<bar> + h"
    and e2: "\<bar>b - a / 50\<bar> \<le> e * \<bar>a / 50\<bar> + h"
    and e0: "0 \<le> e" and h0: "0 \<le> h"
  shows "\<bar>a / 50\<bar> \<le> \<bar>v\<bar> + e * \<bar>v\<bar> + h / 50"
    and "\<bar>b - v\<bar> \<le> \<bar>v\<bar> * (2 * e + e ^ 2) + h * (51 + 50 * e)"
proof -
  have v50: "\<bar>v * 50\<bar> = 50 * \<bar>v\<bar>" by (simp add: abs_mult)
  have "\<bar>a\<bar> \<le> \<bar>v * 50\<bar> + e * \<bar>v * 50\<bar> + h"
    by (rule magnitude_after_rounding [OF e1])
  then have a: "\<bar>a\<bar> \<le> 50 * \<bar>v\<bar> + 50 * (e * \<bar>v\<bar>) + h"
    by (simp add: v50)
  then show a50: "\<bar>a / 50\<bar> \<le> \<bar>v\<bar> + e * \<bar>v\<bar> + h / 50"
    by simp
  have "e * \<bar>a / 50\<bar> \<le> e * (\<bar>v\<bar> + e * \<bar>v\<bar> + h / 50)"
    by (rule mult_left_mono [OF a50 e0])
  then have m: "e * \<bar>a / 50\<bar> \<le> e * \<bar>v\<bar> + e * e * \<bar>v\<bar> + e * h / 50"
    by (simp add: algebra_simps)
  have "\<bar>a - v * 50\<bar> \<le> 50 * (e * \<bar>v\<bar>) + h"
    using e1 by (simp add: v50)
  then have d: "\<bar>a / 50 - v\<bar> \<le> e * \<bar>v\<bar> + h / 50"
    by linarith
  have eh: "0 \<le> e * h" using e0 h0 by simp
  have "\<bar>b - v\<bar> \<le> \<bar>b - a / 50\<bar> + \<bar>a / 50 - v\<bar>" by linarith
  also have "\<dots> \<le> (e * \<bar>v\<bar> + e * e * \<bar>v\<bar> + e * h / 50 + h) + (e * \<bar>v\<bar> + h / 50)"
    using e2 m d by linarith
  also have "\<dots> \<le> 2 * (e * \<bar>v\<bar>) + e * e * \<bar>v\<bar> + 51 * h + 50 * (e * h)"
    using eh h0 by simp
  also have "\<dots> = \<bar>v\<bar> * (2 * e + e ^ 2) + h * (51 + 50 * e)"
    by (simp add: algebra_simps power2_eq_square)
  finally show "\<bar>b - v\<bar> \<le> \<bar>v\<bar> * (2 * e + e ^ 2) + h * (51 + 50 * e)" .
qed

lemma scale_down_then_up:
  fixes c d v e h :: real
  assumes e1: "\<bar>c - v / 50\<bar> \<le> e * \<bar>v / 50\<bar> + h"
    and e2: "\<bar>d - c * 50\<bar> \<le> e * \<bar>c * 50\<bar> + h"
    and e0: "0 \<le> e" and h0: "0 \<le> h"
  shows "\<bar>c * 50\<bar> \<le> \<bar>v\<bar> + e * \<bar>v\<bar> + 50 * h"
    and "\<bar>d - v\<bar> \<le> \<bar>v\<bar> * (2 * e + e ^ 2) + h * (51 + 50 * e)"
proof -
  have v50: "\<bar>v / 50\<bar> = \<bar>v\<bar> / 50" by simp
  have "\<bar>c\<bar> \<le> \<bar>v / 50\<bar> + e * \<bar>v / 50\<bar> + h"
    by (rule magnitude_after_rounding [OF e1])
  then have "50 * \<bar>c\<bar> \<le> \<bar>v\<bar> + e * \<bar>v\<bar> + 50 * h"
    by (simp add: v50)
  then show c50: "\<bar>c * 50\<bar> \<le> \<bar>v\<bar> + e * \<bar>v\<bar> + 50 * h"
    by (simp add: abs_mult)
  have "e * \<bar>c * 50\<bar> \<le> e * (\<bar>v\<bar> + e * \<bar>v\<bar> + 50 * h)"
    by (rule mult_left_mono [OF c50 e0])
  then have m: "e * \<bar>c * 50\<bar> \<le> e * \<bar>v\<bar> + e * e * \<bar>v\<bar> + 50 * (e * h)"
    by (simp add: algebra_simps)
  have "\<bar>c - v / 50\<bar> \<le> e * \<bar>v\<bar> / 50 + h"
    using e1 by (simp add: v50)
  then have d: "\<bar>c * 50 - v\<bar> \<le> e * \<bar>v\<bar> + 50 * h"
    by linarith
  have "\<bar>d - v\<bar> \<le> \<bar>d - c * 50\<bar> + \<bar>c * 50 - v\<bar>" by linarith
  also have "\<dots> \<le> (e * \<bar>v\<bar> + e * e * \<bar>v\<bar> + 50 * (e * h) + h) + (e * \<bar>v\<bar> + 50 * h)"
    using e2 m d by linarith
  also have "\<dots> = \<bar>v\<bar> * (2 * e + e ^ 2) + h * (51 + 50 * e)"
    by (simp add: algebra_simps power2_eq_square)
  finally show "\<bar>d - v\<bar> \<le> \<bar>v\<bar> * (2 * e + e ^ 2) + h * (51 + 50 * e)" .
qed

lemma binary64_constants:
  "eps64 \<le> 1" "eta64 \<le> 1" "50 \<le> overflowThreshold"
  by (simp_all add: eps64_def eta64_def overflowThreshold_def)

lemma toPhy64_to2D64:
  assumes r: "50 * \<bar>v\<bar> < overflowThreshold"
  shows "toPhy64 (to2D64 (Fin v)) = Fin (round64 (round64 (v * 50) / 50))"
    and "\<bar>round64 (round64 (v * 50) / 50) - v\<bar> \<le> roundTripBound v"
proof -
  have e1: "\<bar>round64 (v * 50) - v * 50\<bar> \<le> eps64 * \<bar>v * 50\<bar> + eta64"
    by (rule round64_error)
  have e2: "\<bar>round64 (round64 (v * 50) / 50) - round64 (v * 50) / 50\<bar>
        \<le> eps64 * \<bar>round64 (v * 50) / 50\<bar> + eta64"
    by (rule round64_error)
  have r1: "\<bar>v * 50\<bar> < overflowThreshold"
    using r by (simp add: abs_mult)
  have ev: "eps64 * \<bar>v\<bar> \<le> \<bar>v\<bar>"
    by (rule mult_left_le_one_le) (simp_all add: eps64_nonneg binary64_constants)
  have "\<bar>round64 (v * 50) / 50\<bar> \<le> \<bar>v\<bar> + eps64 * \<bar>v\<bar> + eta64 / 50"
    by (rule scale_up_then_down(1) [OF e1 e2 eps64_nonneg eta64_nonneg])
  then have r2: "\<bar>round64 (v * 50) / 50\<bar> < overflowThreshold"
    using r ev binary64_constants(2,3) by linarith
  show "toPhy64 (to2D64 (Fin v)) = Fin (round64 (round64 (v * 50) / 50))"
    by (simp add: to2D64_def toPhy64_def pixelRatio_def fl64_finite [OF r1] fl64_finite [OF r2])
  show "\<bar>round64 (round64 (v * 50) / 50) - v\<bar> \<le> roundTripBound v"
    unfolding roundTripBound_def
    by (rule scale_up_then_down(2) [OF e1 e2 eps64_nonneg eta64_nonneg])
qed

lemma to2D64_toPhy64:
  assumes r: "inRange64 v"
  shows "to2D64 (toPhy64 (Fin v)) = Fin (round64 (round64 (v / 50) * 50))"
    and "\<bar>round64 (round64 (v / 50) * 50) - v\<bar> \<le> roundTripBound v"
proof -
  have e1: "\<bar>round64 (v / 50) - v / 50\<bar> \<le> eps64 * \<bar>v / 50\<bar> + eta64"
    by (rule round64_error)
  have e2: "\<bar>round64 (round64 (v / 50) * 50) - round64 (v / 50) * 50\<bar>
        \<le> eps64 * \<bar>round64 (v / 50) * 50\<bar> + eta64"
    by (rule round64_error)
  have ev: "0 \<le> eps64 * \<bar>v\<bar>" using eps64_nonneg by simp
  have b: "\<bar>v\<bar> + eps64 * \<bar>v\<bar> + 50 * eta64 < overflowThreshold"
    using r by (simp add: inRange64_def algebra_simps)
  have r1: "\<bar>v / 50\<bar> < overflowThreshold"
    using b ev eta64_nonneg by simp
  have "\<bar>round64 (v / 50) * 50\<bar> \<le> \<bar>v\<bar> + eps64 * \<bar>v\<bar> + 50 * eta64"
    by (rule scale_down_then_up(1) [OF e1 e2 eps64_nonneg eta64_nonneg])
  then have r2: "\<bar>round64 (v / 50) * 50\<bar> < overflowThreshold"
    using b by linarith
  show "to2D64 (toPhy64 (Fin v)) = Fin (round64 (round64 (v / 50) * 50))"
    by (simp add: to2D64_def toPhy64_def pixelRatio_def fl64_finite [OF r1] fl64_finite [OF r2])
  show "\<bar>round64 (round64 (v / 50) * 50) - v\<bar> \<le> roundTripBound v"
    unfolding roundTripBound_def
    by (rule scale_down_then_up(2) [OF e1 e2 eps64_nonneg eta64_nonneg])
qed

lemma to2D64_overflow:
  assumes "overflowThreshold \<le> 50 * \<bar>v\<bar>"
  shows "to2D64 (Fin v) = (if 0 < v then PosInf else NegInf)"
    and "toPhy64 (to2D64 (Fin v)) = (if 0 < v then PosInf else NegInf)"
proof -
  have "overflowThreshold \<le> \<bar>v * 50\<bar>"
    using assms by (simp add: abs_mult)
  then have "fl64 (v * 50) = (if 0 < v * 50 then PosInf else NegInf)"
    by (rule fl64_overflow)
  then show "to2D64 (Fin v) = (if 0 < v then PosInf else NegInf)"
    by (simp add: to2D64_def pixelRatio_def zero_less_mult_iff)
  then show "toPhy64 (to2D64 (Fin v)) = (if 0 < v then PosInf else NegInf)"
    by (simp add: toPhy64_def)
qed

lemma round64_binade:
  assumes "0 < x" and "2 powr of_int k \<le> x" and "x < 2 powr (of_int k + 1)" and "- 1022 \<le> k"
  shows "round64 x = of_int (roundHalfEven (x / 2 powr (of_int k - 52))) * 2 powr (of_int k - 52)"
proof -
  have "\<lfloor>log 2 x\<rfloor> = k"
    using assms by (simp add: floor_log_eq_powr_iff)
  then have "exponent64 x = k"
    using assms by (simp add: exponent64_def)
  then show ?thesis
    by (simp add: round64_def ulp64_def)
qed

lemma round64_tenth: "round64 (1 / 10) = 3602879701896397 / 2 ^ 55"
proof -
  have p: "(2::real) powr (- 56) = 1 / 2 ^ 56" "(2::real) powr (- 4) = 1 / 2 ^ 4"
    "(2::real) powr (- 3) = 1 / 2 ^ 3"
    by (simp_all add: powr_minus powr_realpow [symmetric] divide_simps)
  have "round64 (1 / 10) = of_int (roundHalfEven ((1 / 10) / 2 powr (of_int (- 4) - 52)))
          * 2 powr (of_int (- 4) - 52)"
    by (rule round64_binade) (simp_all add: p)
  also have "\<dots> = of_int (roundHalfEven (2 ^ 56 / 10)) / 2 ^ 56"
    by (simp add: p)
  also have "roundHalfEven (2 ^ 56 / 10) = 7205759403792794"
    by (simp add: roundHalfEven_def Let_def)
  finally show ?thesis by simp
qed

lemma round64_tenth_scaled: "round64 (3602879701896397 / 2 ^ 55 * 50) = 5"
proof -
  have p: "(2::real) powr (- 50) = 1 / 2 ^ 50" "(2::real) powr 2 = 4" "(2::real) powr 3 = 8"
    by (simp_all add: powr_minus powr_realpow [symmetric] divide_simps)
  have "round64 (3602879701896397 / 2 ^ 55 * 50)
      = of_int (roundHalfEven ((3602879701896397 / 2 ^ 55 * 50) / 2 powr (of_int 2 - 52)))
          * 2 powr (of_int 2 - 52)"
    by (rule round64_binade) (simp_all add: p)
  also have "\<dots> = of_int (roundHalfEven (3602879701896397 * 50 / 2 ^ 5)) / 2 ^ 50"
    by (simp add: p)
  also have "roundHalfEven (3602879701896397 * 50 / 2 ^ 5) = 5 * 2 ^ 50"
    by (simp add: roundHalfEven_def Let_def)
  finally show ?thesis by simp
qed

lemma round64_subnormal:
  assumes "0 < x" and "x < 2 powr (- 1022)"
  shows "round64 x = of_int (roundHalfEven (x / 2 powr (- 1074))) * 2 powr (- 1074)"
proof -
  have "log 2 x < - 1022"
    using assms by (simp add: log_less_iff)
  then have "\<lfloor>log 2 x\<rfloor> < - 1022"
    by (simp add: floor_less_iff)
  then have "exponent64 x = - 1022"
    using assms by (simp add: exponent64_def)
  then show ?thesis
    by (simp add: round64_def ulp64_def)
qed

lemma round64_250: "round64 250 = 250"
proof -
  have p: "(2::real) powr (- 45) = 1 / 2 ^ 45" "(2::real) powr 7 = 128" "(2::real) powr 8 = 256"
    by (simp_all add: powr_minus powr_realpow [symmetric] divide_simps)
  have "round64 250 = of_int (roundHalfEven (250 / 2 powr (of_int 7 - 52))) * 2 powr (of_int 7 - 52)"
    by (rule round64_binade) (simp_all add: p)
  also have "\<dots> = of_int (roundHalfEven (250 * 2 ^ 45)) / 2 ^ 45"
    by (simp add: p)
  also have "roundHalfEven (250 * 2 ^ 45) = 250 * 2 ^ 45"
    by (simp add: roundHalfEven_def Let_def)
  finally show ?thesis by simp
qed

lemma round64_5: "round64 5 = 5"
proof -
  have p: "(2::real) powr (- 50) = 1 / 2 ^ 50" "(2::real) powr 2 = 4" "(2::real) powr 3 = 8"
    by (simp_all add: powr_minus powr_realpow [symmetric] divide_simps)
  have "round64 5 = of_int (roundHalfEven (5 / 2 powr (of_int 2 - 52))) * 2 powr (of_int 2 - 52)"
    by (rule round64_binade) (simp_all add: p)
  also have "\<dots> = of_int (roundHalfEven (5 * 2 ^ 50)) / 2 ^ 50"
    by (simp add: p)
  also have "roundHalfEven (5 * 2 ^ 50) = 5 * 2 ^ 50"
    by (simp add: roundHalfEven_def Let_def)
  finally show ?thesis by simp
qed

lemma round64_big: "round64 (2 ^ 1020) = 2 ^ 1020"
proof -
  have p: "(2::real) powr 968 = 2 ^ 968" "(2::real) powr 1020 = 2 ^ 1020"
    "(2::real) powr 1021 = 2 ^ 1021"
    by (simp_all add: powr_realpow [symmetric])
  have "round64 (2 ^ 1020)
      = of_int (roundHalfEven (2 ^ 1020 / 2 powr (of_int 1020 - 52))) * 2 powr (of_int 1020 - 52)"
    by (rule round64_binade) (simp_all add: p)
  also have "\<dots> = of_int (roundHalfEven (2 ^ 52)) * 2 ^ 968"
    by (simp add: p)
  also have "roundHalfEven (2 ^ 52) = 2 ^ 52"
    by (simp add: roundHalfEven_def Let_def)
  finally show ?thesis by simp
qed

lemma round64_tiny: "round64 (1 / 2 ^ 1074) = 1 / 2 ^ 1074"
proof -
  have p: "(2::real) powr (- 1074) = 1 / 2 ^ 1074" "(2::real) powr (- 1022) = 1 / 2 ^ 1022"
    by (simp_all add: powr_minus powr_realpow [symmetric] divide_simps)
  have "round64 (1 / 2 ^ 1074)
      = of_int (roundHalfEven ((1 / 2 ^ 1074) / 2 powr (- 1074))) * 2 powr (- 1074)"
    by (rule round64_subnormal) (simp_all add: p)
  also have "\<dots> = of_int (roundHalfEven 1) / 2 ^ 1074"
    by (simp add: p)
  also have "roundHalfEven 1 = 1"
    by (simp add: roundHalfEven_def Let_def)
  finally show ?thesis by simp
qed

lemma round64_tiny_scaled: "round64 (1 / 2 ^ 1074 / 50) = 0"
proof -
  have p: "(2::real) powr (- 1074) = 1 / 2 ^ 1074" "(2::real) powr (- 1022) = 1 / 2 ^ 1022"
    by (simp_all add: powr_minus powr_realpow [symmetric] divide_simps)
  have "round64 (1 / 2 ^ 1074 / 50)
      = of_int (roundHalfEven ((1 / 2 ^ 1074 / 50) / 2 powr (- 1074))) * 2 powr (- 1074)"
    by (rule round64_subnormal) (simp_all add: p)
  also have "\<dots> = of_int (roundHalfEven (1 / 50)) / 2 ^ 1074"
    by (simp add: p)
  also have "roundHalfEven (1 / 50) = 0"
    by (simp add: roundHalfEven_def Let_def)
  finally show ?thesis by simp
qed

lemma finite_examples:
  "\<bar>(5::real)\<bar> < overflowThreshold" "\<bar>(250::real)\<bar> < overflowThreshold"
  "\<bar>(1::real) / 10\<bar> < overflowThreshold"
  "\<bar>(3602879701896397::real) / 2 ^ 55 * 50\<bar> < overflowThreshold"
  "\<bar>(2::real) ^ 1020\<bar> < overflowThreshold"
  "\<bar>(1::real) / 2 ^ 1074\<bar> < overflowThreshold"
  "\<bar>(1::real) / 2 ^ 1074 / 50\<bar> < overflowThreshold"
  "\<bar>0::real\<bar> < overflowThreshold"
  by (simp_all add: overflowThreshold_def)

lemma inRange64_five: "inRange64 5"
  by (simp add: inRange64_def eps64_def eta64_def overflowThreshold_def)

subsection \<open>The round trips\<close>

text \<open>
  C5. With the ratio 50 the conversions undo each other exactly only in exact arithmetic
  (\<open>toPhy\<close>, \<open>to2D\<close>, and componentwise \<open>toPhyPos\<close>, \<open>to2DPos\<close>). On binary64 values, for
  a finite \<open>v\<close>:
  \<^item> multiplying first: when \<open>50 * \<bar>v\<bar>\<close> is below the overflow threshold
    \<open>2 ^ 1024 - 2 ^ 970\<close>, \<open>toPhy (to2D v)\<close> is finite and within
    \<open>\<bar>v\<bar> * (2 * eps + eps\<^sup>2) + eta * (51 + 50 * eps)\<close> of \<open>v\<close>, with \<open>eps = 2 ^ -53\<close> and
    \<open>eta = 2 ^ -1075\<close>; when \<open>50 * \<bar>v\<bar>\<close> reaches the threshold, \<open>to2D v\<close> and
    \<open>toPhy (to2D v)\<close> are the infinity of the sign of \<open>v\<close>, not \<open>v\<close>;
  \<^item> dividing first: when \<open>\<bar>v\<bar> * (1 + eps) + 50 * eta\<close> is below the threshold,
    \<open>to2D (toPhy v)\<close> is finite and within the same bound of \<open>v\<close>.
  The bound has an absolute part: near zero the result may differ from \<open>v\<close> in every
  digit (the least positive value comes back as 0).
  The point conversions are the scalar ones on each coordinate.
\<close>

theorem conversions_round_trip:
  "(to2D (toPhy x) = x \<and> toPhy (to2D x) = x \<and>
    to2DPos (toPhyPos p) = p \<and> toPhyPos (to2DPos p) = p) \<and>
   (50 * \<bar>v\<bar> < overflowThreshold \<longrightarrow>
      toPhy64 (to2D64 (Fin v)) = Fin (round64 (round64 (v * 50) / 50)) \<and>
      \<bar>round64 (round64 (v * 50) / 50) - v\<bar> \<le> roundTripBound v) \<and>
   (overflowThreshold \<le> 50 * \<bar>v\<bar> \<longrightarrow>
      to2D64 (Fin v) = (if 0 < v then PosInf else NegInf) \<and>
      toPhy64 (to2D64 (Fin v)) = (if 0 < v then PosInf else NegInf)) \<and>
   (inRange64 v \<longrightarrow>
      to2D64 (toPhy64 (Fin v)) = Fin (round64 (round64 (v / 50) * 50)) \<and>
      \<bar>round64 (round64 (v / 50) * 50) - v\<bar> \<le> roundTripBound v) \<and>
   toPhyPos64 (to2DPos64 q) = \<lparr>dx = toPhy64 (to2D64 (dx q)), dy = toPhy64 (to2D64 (dy q))\<rparr> \<and>
   to2DPos64 (toPhyPos64 q) = \<lparr>dx = to2D64 (toPhy64 (dx q)), dy = to2D64 (toPhy64 (dy q))\<rparr>"
proof (intro conjI impI)
  show "to2D (toPhy x) = x" "toPhy (to2D x) = x"
    by (simp_all add: to2D_def toPhy_def pixelRatio_def)
  show "to2DPos (toPhyPos p) = p" "toPhyPos (to2DPos p) = p"
    by (simp_all add: to2DPos_def toPhyPos_def pixelRatio_def)
next
  assume "50 * \<bar>v\<bar> < overflowThreshold"
  then show "toPhy64 (to2D64 (Fin v)) = Fin (round64 (round64 (v * 50) / 50))"
    and "\<bar>round64 (round64 (v * 50) / 50) - v\<bar> \<le> roundTripBound v"
    by (rule toPhy64_to2D64)+
next
  assume "overflowThreshold \<le> 50 * \<bar>v\<bar>"
  then show "to2D64 (Fin v) = (if 0 < v then PosInf else NegInf)"
    and "toPhy64 (to2D64 (Fin v)) = (if 0 < v then PosInf else NegInf)"
    by (rule to2D64_overflow)+
next
  assume "inRange64 v"
  then show "to2D64 (toPhy64 (Fin v)) = Fin (round64 (round64 (v / 50) * 50))"
    and "\<bar>round64 (round64 (v / 50) * 50) - v\<bar> \<le> roundTripBound v"
    by (rule to2D64_toPhy64)+
next
  show "toPhyPos64 (to2DPos64 q)
      = \<lparr>dx = toPhy64 (to2D64 (dx q)), dy = toPhy64 (to2D64 (dy q))\<rparr>"
    by (simp add: toPhyPos64_def to2DPos64_def)
  show "to2DPos64 (toPhyPos64 q)
      = \<lparr>dx = to2D64 (toPhy64 (dx q)), dy = to2D64 (toPhy64 (dy q))\<rparr>"
    by (simp add: toPhyPos64_def to2DPos64_def)
qed

text \<open>
  The theorem at 5 (both round trips return 5 although 5 / 50 is not a binary64 value and
  is rounded on the way), at \<open>2 ^ 1020\<close> and \<open>- 2 ^ 1020\<close> (overflow), and at a point with
  these coordinates.
\<close>

theorem conversions_round_trip_witness:
  "50 * \<bar>5\<bar> < overflowThreshold \<and> inRange64 5 \<and>
   to2D64 (Fin 5) = Fin 250 \<and> toPhy64 (to2D64 (Fin 5)) = Fin 5 \<and>
   toPhy64 (Fin 5) = Fin (3602879701896397 / 2 ^ 55) \<and> to2D64 (toPhy64 (Fin 5)) = Fin 5 \<and>
   \<bar>round64 (round64 (5 * 50) / 50) - 5\<bar> \<le> roundTripBound 5 \<and>
   \<bar>round64 (round64 (5 / 50) * 50) - 5\<bar> \<le> roundTripBound 5 \<and>
   overflowThreshold \<le> 50 * \<bar>2 ^ 1020\<bar> \<and>
   to2D64 (Fin (2 ^ 1020)) = PosInf \<and> toPhy64 (to2D64 (Fin (2 ^ 1020))) = PosInf \<and>
   to2D64 (Fin (- (2 ^ 1020))) = NegInf \<and>
   toPhyPos64 (to2DPos64 \<lparr>dx = Fin 5, dy = Fin (2 ^ 1020)\<rparr>) = \<lparr>dx = Fin 5, dy = PosInf\<rparr>"
proof -
  note five = conversions_round_trip
    [of 0 "\<lparr>px = 0, py = 0\<rparr>" 5 "\<lparr>dx = Fin 5, dy = Fin (2 ^ 1020)\<rparr>"]
  note large = conversions_round_trip
    [of 0 "\<lparr>px = 0, py = 0\<rparr>" "2 ^ 1020" "\<lparr>dx = Fin 5, dy = Fin (2 ^ 1020)\<rparr>"]
  note negative = conversions_round_trip
    [of 0 "\<lparr>px = 0, py = 0\<rparr>" "- (2 ^ 1020)" "\<lparr>dx = Fin 5, dy = Fin (2 ^ 1020)\<rparr>"]
  have h1: "50 * \<bar>5\<bar> < overflowThreshold"
    by (simp add: overflowThreshold_def)
  have h2: "overflowThreshold \<le> 50 * \<bar>2 ^ 1020\<bar>"
    by (simp add: overflowThreshold_def)
  have h3: "overflowThreshold \<le> 50 * \<bar>- (2 ^ 1020)\<bar>"
    by (simp add: overflowThreshold_def)
  have tenth: "(5::real) / 50 = 1 / 10" by simp
  have a: "to2D64 (Fin 5) = Fin 250"
    by (simp add: to2D64_def pixelRatio_def fl64_def overflowThreshold_def round64_250)
  have b: "toPhy64 (Fin 5) = Fin (3602879701896397 / 2 ^ 55)"
    by (simp only: toPhy64_def pixelRatio_def double.case tenth fl64_finite finite_examples
        round64_tenth)
  have c: "round64 (round64 (5 * 50) / 50) = 5"
    by (simp add: round64_250 round64_5)
  have d: "round64 (round64 (5 / 50) * 50) = 5"
    by (simp only: tenth round64_tenth round64_tenth_scaled)
  have up1: "toPhy64 (to2D64 (Fin 5)) = Fin (round64 (round64 (5 * 50) / 50))"
    and up2: "\<bar>round64 (round64 (5 * 50) / 50) - 5\<bar> \<le> roundTripBound 5"
    using five h1 by blast+
  have down1: "to2D64 (toPhy64 (Fin 5)) = Fin (round64 (round64 (5 / 50) * 50))"
    and down2: "\<bar>round64 (round64 (5 / 50) * 50) - 5\<bar> \<le> roundTripBound 5"
    using five inRange64_five by blast+
  have pos: "0 < (2::real) ^ 1020" by simp
  have neg: "\<not> 0 < - ((2::real) ^ 1020)" by simp
  have "to2D64 (Fin (2 ^ 1020)) = (if 0 < (2::real) ^ 1020 then PosInf else NegInf)"
    and "toPhy64 (to2D64 (Fin (2 ^ 1020))) = (if 0 < (2::real) ^ 1020 then PosInf else NegInf)"
    using large h2 by blast+
  then have inf1: "to2D64 (Fin (2 ^ 1020)) = PosInf"
    and inf2: "toPhy64 (to2D64 (Fin (2 ^ 1020))) = PosInf"
    by (simp_all only: pos if_True)
  have "to2D64 (Fin (- (2 ^ 1020))) = (if 0 < - ((2::real) ^ 1020) then PosInf else NegInf)"
    using negative h3 by blast
  then have inf3: "to2D64 (Fin (- (2 ^ 1020))) = NegInf"
    by (simp only: neg if_False)
  have "toPhyPos64 (to2DPos64 \<lparr>dx = Fin 5, dy = Fin (2 ^ 1020)\<rparr>)
      = \<lparr>dx = toPhy64 (to2D64 (dx \<lparr>dx = Fin 5, dy = Fin (2 ^ 1020)\<rparr>)),
         dy = toPhy64 (to2D64 (dy \<lparr>dx = Fin 5, dy = Fin (2 ^ 1020)\<rparr>))\<rparr>"
    using five by blast
  then have pt: "toPhyPos64 (to2DPos64 \<lparr>dx = Fin 5, dy = Fin (2 ^ 1020)\<rparr>)
      = \<lparr>dx = Fin 5, dy = PosInf\<rparr>"
    by (simp only: dpoint.select_convs up1 c inf2)
  show ?thesis
    using h1 inRange64_five a up1 [unfolded c] b down1 [unfolded d] up2 down2 h2 inf1 inf2 inf3 pt
    by blast
qed

text \<open>
  \<open>2 ^ 1020\<close>, about 1.1e307, is a finite binary64 value whose round trip through \<open>to2D\<close>
  and \<open>toPhy\<close> is \<open>Infinity\<close>; the least positive value \<open>2 ^ -1074\<close> comes back from
  \<open>toPhy\<close> and \<open>to2D\<close> as 0.
\<close>

theorem conversions_overflow_counterexample:
  "fl64 (2 ^ 1020) = Fin (2 ^ 1020) \<and>
   to2D64 (Fin (2 ^ 1020)) = PosInf \<and> toPhy64 (to2D64 (Fin (2 ^ 1020))) = PosInf \<and>
   fl64 (1 / 2 ^ 1074) = Fin (1 / 2 ^ 1074) \<and>
   toPhy64 (Fin (1 / 2 ^ 1074)) = Fin 0 \<and> to2D64 (toPhy64 (Fin (1 / 2 ^ 1074))) = Fin 0"
proof -
  have h: "overflowThreshold \<le> 50 * \<bar>2 ^ 1020\<bar>"
    by (simp add: overflowThreshold_def)
  have big: "fl64 (2 ^ 1020) = Fin (2 ^ 1020)"
    by (simp only: fl64_finite finite_examples round64_big)
  have tiny: "fl64 (1 / 2 ^ 1074) = Fin (1 / 2 ^ 1074)"
    by (simp only: fl64_finite finite_examples round64_tiny)
  have down: "toPhy64 (Fin (1 / 2 ^ 1074)) = Fin 0"
    by (simp only: toPhy64_def pixelRatio_def double.case fl64_finite finite_examples
        round64_tiny_scaled)
  have up: "to2D64 (Fin 0) = Fin 0"
    by (simp add: to2D64_def fl64_def overflowThreshold_def round64_zero)
  show ?thesis
    using to2D64_overflow [OF h] big tiny down up by simp
qed


section \<open>One-way platforms\<close>

text \<open>
  C1, as the code has it. The pre-solve handler reads the tag of fixture A only. It
  disables the contact exactly when that tag is \<open>left\<close> and \<open>normal.x < -0.5\<close>, or
  \<open>right\<close> and \<open>normal.x > 0.5\<close>, or \<open>top\<close> and \<open>normal.y < -0.5\<close>, or \<open>bottom\<close> and
  \<open>normal.y > 0.5\<close>; in every other case it returns the contact as it was, fixtures
  included.
\<close>

theorem preSolve_reads_fixtureA:
  "preSolve c =
     (if (f_userData (fixtureA c) = Some ''left'' \<and> px (localNormal c) < - (1 / 2)) \<or>
         (f_userData (fixtureA c) = Some ''right'' \<and> px (localNormal c) > 1 / 2) \<or>
         (f_userData (fixtureA c) = Some ''top'' \<and> py (localNormal c) < - (1 / 2)) \<or>
         (f_userData (fixtureA c) = Some ''bottom'' \<and> py (localNormal c) > 1 / 2)
      then c\<lparr>c_enabled := False\<rparr> else c)"
  by (auto simp: preSolve_def Let_def split: option.splits)

text \<open>
  C1 as written speaks of either fixture. A platform tagged \<open>top\<close> that is fixture B,
  with the local normal pointing down past the threshold, keeps its contact enabled.
\<close>

theorem preSolve_fixtureB_counterexample:
  "f_userData (fixtureB contactPlatformB) = Some ''top'' \<and>
   py (localNormal contactPlatformB) < - (1 / 2) \<and>
   c_enabled (preSolve contactPlatformB)"
  by (simp add: preSolve_def contactPlatformB_def platformFixture_def plainFixture_def)

section \<open>The per-frame update of a binding\<close>

text \<open>
  C9. For a binding whose \<open>rigidType\<close> is \<open>static\<close>, \<open>onUpdate\<close> returns at once:
  nothing is thrown and the binding, its scene node included (position, rotation,
  destroyed flag), is left as it was, for every body position and boundary area.
\<close>

theorem onUpdate_static:
  "rigidType rb = ''static'' \<Longrightarrow> onUpdate contains toLocalPoint ph rb = (None, rb)"
  by (simp add: onUpdate_def)

text \<open>A static binding whose body lies outside the configured boundary area.\<close>

theorem onUpdate_static_witness:
  "rigidType (sampleBinding\<lparr>rigidType := ''static''\<rparr>) = ''static'' \<and>
   onUpdate rectContains shiftBy (newPhysics\<lparr>boundaryArea := Some smallArea\<rparr>)
     (sampleBinding\<lparr>rigidType := ''static''\<rparr>) = (None, sampleBinding\<lparr>rigidType := ''static''\<rparr>)"
  using onUpdate_static [of "sampleBinding\<lparr>rigidType := ''static''\<rparr>" rectContains shiftBy
      "newPhysics\<lparr>boundaryArea := Some smallArea\<rparr>"]
  by simp

text \<open>
  C4. For a binding that is not \<open>static\<close>: with a boundary area configured and the
  body's position, converted to pixels, outside it, \<open>onUpdate\<close> destroys the node and
  returns with the node's transform untouched; with the position inside the area, or
  with no area configured, \<open>onUpdate\<close> does not destroy the node.
\<close>

theorem onUpdate_boundary:
  assumes "rigidType rb \<noteq> ''static''"
  shows "(boundaryArea ph = Some area \<and>
          \<not> contains area (px (to2DPos (position (body_of rb)))) (py (to2DPos (position (body_of rb))))
           \<longrightarrow> onUpdate contains toLocalPoint ph rb =
                 (None, rb\<lparr>target := (target rb)\<lparr>n_destroyed := True\<rparr>\<rparr>)) \<and>
         (boundaryArea ph = Some area \<and>
          contains area (px (to2DPos (position (body_of rb)))) (py (to2DPos (position (body_of rb))))
           \<longrightarrow> n_destroyed (target (snd (onUpdate contains toLocalPoint ph rb))) =
                 n_destroyed (target rb)) \<and>
         (boundaryArea ph = None
           \<longrightarrow> n_destroyed (target (snd (onUpdate contains toLocalPoint ph rb))) =
                 n_destroyed (target rb))"
  using assms
  by (simp add: onUpdate_def inBoundaryArea_def Let_def split: option.split)

text \<open>
  The body at (3, 4), that is pixel (150, 200): outside the area of side 100, inside the
  area of side 1000.
\<close>

theorem onUpdate_boundary_witness:
  "rigidType sampleBinding \<noteq> ''static'' \<and>
   \<not> rectContains smallArea (px (to2DPos (position (body_of sampleBinding))))
       (py (to2DPos (position (body_of sampleBinding)))) \<and>
   onUpdate rectContains shiftBy (newPhysics\<lparr>boundaryArea := Some smallArea\<rparr>) sampleBinding =
     (None, sampleBinding\<lparr>target := (target sampleBinding)\<lparr>n_destroyed := True\<rparr>\<rparr>) \<and>
   rectContains largeArea (px (to2DPos (position (body_of sampleBinding))))
       (py (to2DPos (position (body_of sampleBinding)))) \<and>
   \<not> n_destroyed (target (snd (onUpdate rectContains shiftBy
       (newPhysics\<lparr>boundaryArea := Some largeArea\<rparr>) sampleBinding))) \<and>
   \<not> n_destroyed (target (snd (onUpdate rectContains shiftBy newPhysics sampleBinding)))"
proof -
  have dyn: "rigidType sampleBinding \<noteq> ''static''"
    by (simp add: sampleBinding_def)
  have out: "\<not> rectContains smallArea (px (to2DPos (position (body_of sampleBinding))))
       (py (to2DPos (position (body_of sampleBinding))))"
    by (simp add: rectContains_def smallArea_def sampleBinding_def sampleBody_def to2DPos_def
        pixelRatio_def)
  have inn: "rectContains largeArea (px (to2DPos (position (body_of sampleBinding))))
       (py (to2DPos (position (body_of sampleBinding))))"
    by (simp add: rectContains_def largeArea_def sampleBinding_def sampleBody_def to2DPos_def
        pixelRatio_def)
  have alive: "\<not> n_destroyed (target sampleBinding)"
    by (simp add: sampleBinding_def sampleNode_def)
  show ?thesis
    using dyn out inn alive
      onUpdate_boundary [OF dyn, of "newPhysics\<lparr>boundaryArea := Some smallArea\<rparr>" smallArea
        rectContains shiftBy]
      onUpdate_boundary [OF dyn, of "newPhysics\<lparr>boundaryArea := Some largeArea\<rparr>" largeArea
        rectContains shiftBy]
      onUpdate_boundary [OF dyn, of newPhysics smallArea rectContains shiftBy]
    by (simp add: newPhysics_def)
qed

section \<open>Activation\<close>

text \<open>
  C8. \<open>onAwake\<close> on a binding without scene throws the error
  \<open>Please add to a scene first\<close> and leaves the registry and the binding, its body
  included (type, fixtures, position, angle, active flag, user data), as they were.
\<close>

theorem onAwake_without_scene:
  "scene rb = None \<Longrightarrow>
   onAwake self (ph, rb) = Some (Some (Error ''Please add to a scene first''), ph, rb)"
  by (simp add: onAwake_def)

theorem onAwake_without_scene_witness:
  "scene (sampleBinding\<lparr>scene := None\<rparr>) = None \<and>
   onAwake 3 (newPhysics, sampleBinding\<lparr>scene := None\<rparr>) =
     Some (Some (Error ''Please add to a scene first''), newPhysics, sampleBinding\<lparr>scene := None\<rparr>)"
  using onAwake_without_scene [of "sampleBinding\<lparr>scene := None\<rparr>" 3 newPhysics]
  by simp

section \<open>Shape realization\<close>

text \<open>
  C10, as the code has it. After activation \<open>addShape\<close> appends one fixture. For a box, a
  circle and an edge its geometry is placed at the local offset \<open>off\<close>: the descriptor's
  own offset converted with \<open>toPhy\<close> when it has one (the pivot is not added), and the
  node's pivot converted with \<open>toPhy\<close> when it has none. A box is centred at its half
  extents plus \<open>off\<close>, a circle at \<open>off\<close>, an edge starts at \<open>off\<close>. A polygon is built
  from its points converted with \<open>toPhyPos\<close> alone: neither the descriptor's offset nor
  the pivot enters. Any other shape type adds no fixture.
\<close>

theorem addShape_local_offset:
  assumes "awaked rb"
  shows "let off = (case offset shape of
                      Some q \<Rightarrow> \<lparr>px = toPhy (px q), py = toPhy (py q)\<rparr>
                    | None \<Rightarrow> \<lparr>px = toPhy (px (pivot (target rb))),
                               py = toPhy (py (pivot (target rb)))\<rparr>);
             w = (case width shape of Some v \<Rightarrow> v | None \<Rightarrow> rect_width (worldBounds (target rb)));
             h = (case height shape of Some v \<Rightarrow> v | None \<Rightarrow> rect_height (worldBounds (target rb)))
         in map f_shape (fixtures (body_of (snd (addShape shape (ph, rb))))) =
            map f_shape (fixtures (body_of rb)) @
            (if shapeType shape = ''box''
             then [Box (toPhy w / 2) (toPhy h / 2)
                     \<lparr>px = toPhy w / 2 + px off, py = toPhy h / 2 + py off\<rparr>]
             else if shapeType shape = ''circle'' then [Circle off (toPhy w)]
             else if shapeType shape = ''edge''
             then [Edge off \<lparr>px = px off + toPhy w, py = py off\<rparr>]
             else if shapeType shape = ''polygon''
             then [Polygon (map toPhyPos (case points shape of Some ps \<Rightarrow> ps | None \<Rightarrow> []))]
             else [])"
  using assms
  by (simp add: addShape_def shapeGeometry_def shapeOffset_def Let_def
      split: prod.split option.split)

text \<open>
  On a node with pivot (10, 20) and bounds 100 by 40. A circle of width 20: with the
  offset (5, 15) it sits at (0.1, 0.3), without offset at (0.2, 0.4). A box of the
  node's bounds with the offset (5, 15) is centred at (1.1, 0.7). An edge of width 20
  without offset runs from (0.2, 0.4) to (0.6, 0.4). The triangle keeps its points.
\<close>

theorem addShape_local_offset_witness:
  "awaked sampleBinding \<and>
   map f_shape (fixtures (body_of (snd (addShape
       (circleShape\<lparr>offset := Some \<lparr>px = 5, py = 15\<rparr>\<rparr>) (newPhysics, sampleBinding))))) =
     [Circle \<lparr>px = 1 / 10, py = 3 / 10\<rparr> (2 / 5)] \<and>
   map f_shape (fixtures (body_of (snd (addShape circleShape (newPhysics, sampleBinding))))) =
     [Circle \<lparr>px = 1 / 5, py = 2 / 5\<rparr> (2 / 5)] \<and>
   map f_shape (fixtures (body_of (snd (addShape
       (circleShape\<lparr>shapeType := ''box'', width := None, offset := Some \<lparr>px = 5, py = 15\<rparr>\<rparr>)
       (newPhysics, sampleBinding))))) =
     [Box 1 (2 / 5) \<lparr>px = 11 / 10, py = 7 / 10\<rparr>] \<and>
   map f_shape (fixtures (body_of (snd (addShape
       (circleShape\<lparr>shapeType := ''edge''\<rparr>) (newPhysics, sampleBinding))))) =
     [Edge \<lparr>px = 1 / 5, py = 2 / 5\<rparr> \<lparr>px = 3 / 5, py = 2 / 5\<rparr>] \<and>
   map f_shape (fixtures (body_of (snd (addShape triangleShape (newPhysics, sampleBinding))))) =
     [Polygon [\<lparr>px = 0, py = 0\<rparr>, \<lparr>px = 1, py = 0\<rparr>, \<lparr>px = 0, py = 1\<rparr>]]"
proof -
  have aw: "awaked sampleBinding"
    by (simp add: sampleBinding_def)
  show ?thesis
    using aw
      addShape_local_offset [OF aw, of "circleShape\<lparr>offset := Some \<lparr>px = 5, py = 15\<rparr>\<rparr>" newPhysics]
      addShape_local_offset [OF aw, of circleShape newPhysics]
      addShape_local_offset [OF aw,
        of "circleShape\<lparr>shapeType := ''box'', width := None, offset := Some \<lparr>px = 5, py = 15\<rparr>\<rparr>"
        newPhysics]
      addShape_local_offset [OF aw, of "circleShape\<lparr>shapeType := ''edge''\<rparr>" newPhysics]
      addShape_local_offset [OF aw, of triangleShape newPhysics]
    by (simp add: circleShape_def triangleShape_def sampleBinding_def sampleNode_def
        sampleBody_def toPhy_def toPhyPos_def pixelRatio_def Let_def)
qed

text \<open>
  C10 as written speaks of every shape descriptor. The triangle has the explicit offset
  (5, 15), that is (0.1, 0.3) after \<open>toPhy\<close>, and its fixture is the triangle of its own
  points at (0, 0), (1, 0), (0, 1); without the offset, on the same node with pivot
  (10, 20), the fixture is the same.
\<close>

theorem addShape_polygon_counterexample:
  "shapeType triangleShape = ''polygon'' \<and>
   offset triangleShape = Some \<lparr>px = 5, py = 15\<rparr> \<and>
   pivot (target sampleBinding) = \<lparr>px = 10, py = 20\<rparr> \<and>
   map f_shape (fixtures (body_of (snd (addShape triangleShape (newPhysics, sampleBinding))))) =
     [Polygon [\<lparr>px = 0, py = 0\<rparr>, \<lparr>px = 1, py = 0\<rparr>, \<lparr>px = 0, py = 1\<rparr>]] \<and>
   map f_shape (fixtures (body_of (snd (addShape (triangleShape\<lparr>offset := None\<rparr>)
       (newPhysics, sampleBinding))))) =
     [Polygon [\<lparr>px = 0, py = 0\<rparr>, \<lparr>px = 1, py = 0\<rparr>, \<lparr>px = 0, py = 1\<rparr>]]"
  by (simp add: addShape_def shapeGeometry_def getCategoryBit_def getCategoryMask_def
      triangleShape_def circleShape_def sampleBinding_def sampleNode_def sampleBody_def
      toPhyPos_def pixelRatio_def Let_def)

section \<open>Delivery of contact events\<close>

lemma eligible_None: "eligible w ty None = False"
  by (simp add: eligible_def)















section \<open>The queue during and after the drain\<close>





section \<open>The category registry\<close>

lemma truthy_jsPow2: "truthy (jsPow2 n)"
  by (simp add: jsPow2_def)

lemma getCategoryBit_None: "getCategoryBit p None = (Num 1, p)"
  by (simp add: getCategoryBit_def)

lemma getCategoryBit_empty: "getCategoryBit p (Some []) = (Num 1, p)"
  by (simp add: getCategoryBit_def)

lemma getCategoryBit_old:
  "\<not> allocates p n \<Longrightarrow>
   getCategoryBit p (Some n) = (if n = [] then Num 1 else getProp (categoryMap p) n, p)"
  by (auto simp: getCategoryBit_def allocates_def)

lemma getCategoryBit_new:
  "allocates p n \<Longrightarrow>
   getCategoryBit p (Some n) =
     (jsPow2 (count p),
      p\<lparr>categoryMap := (categoryMap p)(n \<mapsto> jsPow2 (count p)), count := count p + 1\<rparr>)"
  by (simp add: getCategoryBit_def allocates_def getProp_def)

lemma getProp_kept:
  assumes "truthy (getProp (categoryMap p) n)"
  shows "getProp (categoryMap (snd (getCategoryBit p c))) n = getProp (categoryMap p) n"
proof (cases c)
  case None
  then show ?thesis by (simp add: getCategoryBit_None)
next
  case (Some m)
  show ?thesis
  proof (cases "allocates p m")
    case True
    then have "m \<noteq> n" using assms by (auto simp: allocates_def)
    then show ?thesis using True Some by (simp add: getCategoryBit_new getProp_def)
  next
    case False
    then show ?thesis using Some by (simp add: getCategoryBit_old)
  qed
qed

lemma getProp_kept_calls:
  "truthy (getProp (categoryMap p) n) \<Longrightarrow>
   getProp (categoryMap (calls cs p)) n = getProp (categoryMap p) n"
proof (induction cs arbitrary: p)
  case Nil
  then show ?case by simp
next
  case (Cons c cs)
  have "truthy (getProp (categoryMap (snd (getCategoryBit p c))) n)"
    using Cons.prems by (simp add: getProp_kept)
  from Cons.IH [OF this] show ?case
    using Cons.prems by (simp add: getProp_kept)
qed

lemma getCategoryBit_stored:
  assumes "n \<noteq> []"
  shows "truthy (fst (getCategoryBit p (Some n))) \<and>
         getProp (categoryMap (snd (getCategoryBit p (Some n)))) n = fst (getCategoryBit p (Some n))"
proof (cases "allocates p n")
  case True
  then show ?thesis by (simp add: getCategoryBit_new getProp_def truthy_jsPow2)
next
  case False
  then show ?thesis using assms by (simp add: getCategoryBit_old allocates_def)
qed

lemma getCategoryBit_truthy_prop:
  "n \<noteq> [] \<Longrightarrow> truthy (getProp (categoryMap p) n) \<Longrightarrow>
   fst (getCategoryBit p (Some n)) = getProp (categoryMap p) n"
  by (simp add: getCategoryBit_old allocates_def)

lemma getCategoryBit_idem:
  "fst (getCategoryBit (calls cs (snd (getCategoryBit p c))) c) = fst (getCategoryBit p c)"
proof (cases c)
  case None
  then show ?thesis by (simp add: getCategoryBit_None)
next
  case (Some n)
  show ?thesis
  proof (cases "n = []")
    case True
    then show ?thesis using Some by (simp add: getCategoryBit_empty)
  next
    case False
    let ?p1 = "snd (getCategoryBit p (Some n))"
    have t: "truthy (getProp (categoryMap ?p1) n)"
      and v: "getProp (categoryMap ?p1) n = fst (getCategoryBit p (Some n))"
      using getCategoryBit_stored [OF False, of p] by simp_all
    have "getProp (categoryMap (calls cs ?p1)) n = getProp (categoryMap ?p1) n"
      using t by (rule getProp_kept_calls)
    then show ?thesis
      using Some t v False by (simp add: getCategoryBit_truthy_prop)
  qed
qed

lemma registered_new: "registered newPhysics []"
  by (simp add: registered_def newPhysics_def)

lemma registered_lookup:
  assumes "registered p seen" and "k < length seen"
  shows "getProp (categoryMap p) (seen ! k) = jsPow2 (Suc k)"
  using assms by (simp add: registered_def getProp_def)

lemma registered_fresh:
  assumes "registered p seen" and "n \<notin> set seen" and "n \<noteq> []"
      and "n \<notin> set objectPrototypeKeys"
  shows "allocates p n"
  using assms by (simp add: registered_def allocates_def getProp_def)

lemma registered_known:
  assumes "registered p seen" and "n \<in> set seen"
  shows "\<not> allocates p n"
proof -
  obtain k where k: "k < length seen" "seen ! k = n"
    using assms(2) by (auto simp: in_set_conv_nth)
  have "getProp (categoryMap p) n = jsPow2 (Suc k)"
    using registered_lookup [OF assms(1) k(1)] k(2) by simp
  then show ?thesis by (simp add: allocates_def truthy_jsPow2)
qed

lemma registered_append:
  assumes r: "registered p seen" and n: "n \<notin> set seen" "n \<noteq> []"
      "n \<notin> set objectPrototypeKeys"
  shows "registered
           (p\<lparr>categoryMap := (categoryMap p)(n \<mapsto> jsPow2 (count p)), count := count p + 1\<rparr>)
           (seen @ [n])"
proof -
  have c: "count p = Suc (length seen)"
    using r by (simp add: registered_def)
  have old: "\<And>k. k < length seen \<Longrightarrow> categoryMap p (seen ! k) = Some (jsPow2 (Suc k))"
    using r by (simp add: registered_def)
  have none: "\<And>m. m \<notin> set seen \<Longrightarrow> categoryMap p m = None"
    using r by (simp add: registered_def)
  have d: "distinct seen" "[] \<notin> set seen" "set seen \<inter> set objectPrototypeKeys = {}"
    using r by (simp_all add: registered_def)
  have entries: "\<forall>k < length (seen @ [n]).
      ((categoryMap p)(n \<mapsto> jsPow2 (count p))) ((seen @ [n]) ! k) = Some (jsPow2 (Suc k))"
  proof (intro allI impI)
    fix k assume "k < length (seen @ [n])"
    then consider "k < length seen" | "k = length seen" by fastforce
    then show "((categoryMap p)(n \<mapsto> jsPow2 (count p))) ((seen @ [n]) ! k) = Some (jsPow2 (Suc k))"
    proof cases
      case 1
      then have "seen ! k \<noteq> n" using n(1) by auto
      then show ?thesis using 1 old by (simp add: nth_append)
    next
      case 2
      then show ?thesis using c by (simp add: nth_append)
    qed
  qed
  show ?thesis
    unfolding registered_def
    using d n c entries none by simp
qed

lemma registered_inherited:
  assumes "registered p seen" and "n \<in> set objectPrototypeKeys"
  shows "\<not> allocates p n"
proof -
  have "n \<notin> set seen"
    using assms by (auto simp: registered_def)
  then have "categoryMap p n = None"
    using assms(1) by (simp add: registered_def)
  then show ?thesis
    using assms(2) by (simp add: allocates_def getProp_def)
qed

lemma registered_step:
  assumes "registered p seen"
  shows "registered (snd (getCategoryBit p (Some n)))
           (if n \<noteq> [] \<and> n \<notin> set objectPrototypeKeys \<and> n \<notin> set seen
            then seen @ [n] else seen)"
proof (cases "n \<noteq> [] \<and> n \<notin> set objectPrototypeKeys \<and> n \<notin> set seen")
  case True
  then have "allocates p n"
    using registered_fresh assms by simp
  then show ?thesis
    using True registered_append [OF assms, of n]
    by (simp add: getCategoryBit_new)
next
  case False
  then have "\<not> allocates p n"
    using registered_known [OF assms] registered_inherited [OF assms]
    by (auto simp: allocates_def)
  moreover have "(if n \<noteq> [] \<and> n \<notin> set objectPrototypeKeys \<and> n \<notin> set seen
                  then seen @ [n] else seen) = seen"
    using False by auto
  ultimately show ?thesis
    using assms by (simp add: getCategoryBit_old)
qed

lemma registered_calls:
  assumes "registered p seen"
  shows "registered (calls cs p) (uses seen cs)"
  using assms
proof (induction cs arbitrary: p seen)
  case Nil
  then show ?case by simp
next
  case (Cons c cs)
  show ?case
  proof (cases c)
    case None
    then show ?thesis
      using Cons by (simp add: getCategoryBit_None)
  next
    case (Some n)
    have "registered (calls cs (snd (getCategoryBit p (Some n))))
            (uses (if n \<noteq> [] \<and> n \<notin> set objectPrototypeKeys \<and> n \<notin> set seen
                   then seen @ [n] else seen) cs)"
      using Cons.IH [OF registered_step [OF Cons.prems]] .
    moreover have "uses seen (Some n # cs) =
        uses (if n \<noteq> [] \<and> n \<notin> set objectPrototypeKeys \<and> n \<notin> set seen
              then seen @ [n] else seen) cs"
      by auto
    ultimately show ?thesis
      using Some by (simp del: uses.simps)
  qed
qed

lemma registered_bit:
  assumes "registered p seen" and "k < length seen"
  shows "fst (getCategoryBit p (Some (seen ! k))) = jsPow2 (Suc k)"
proof -
  have "seen ! k \<in> set seen" using assms(2) by simp
  then have "\<not> allocates p (seen ! k)" and "seen ! k \<noteq> []"
    using registered_known [OF assms(1)] assms(1) by (auto simp: registered_def)
  then show ?thesis
    using registered_lookup [OF assms] by (simp add: getCategoryBit_old)
qed

lemma uses_set:
  "set (uses seen cs) =
     set seen \<union> {n. Some n \<in> set cs \<and> n \<noteq> [] \<and> n \<notin> set objectPrototypeKeys}"
proof (induction cs arbitrary: seen)
  case Nil
  then show ?case by simp
next
  case (Cons c cs)
  show ?case
  proof (cases c)
    case None
    then show ?thesis using Cons by simp
  next
    case (Some n)
    then show ?thesis using Cons by auto
  qed
qed

text \<open>
  C6, as the code has it. \<open>getCategoryBit\<close> returns 1 and changes nothing when the name
  is absent or empty. For every name and every registry, the value a call returns is
  returned again by a later call with the same name, whatever calls come in between.
  Take any sequence of calls on a new \<open>Physics\<close> and list its names that are neither
  empty nor a property name a plain object inherits, each once, in order of first use
  (\<open>firstUses\<close>). The \<open>k\<close>-th of them (counting from 0) has the bit \<open>2 ^ (k + 1)\<close> when
  \<open>k < 1023\<close>, and \<open>Infinity\<close> otherwise: the first 1023 names get 2, 4, 8, ...,
  \<open>2 ^ 1023\<close>, every later name gets \<open>Infinity\<close>.
\<close>

theorem getCategoryBit_registry:
  "getCategoryBit p None = (Num 1, p) \<and>
   getCategoryBit p (Some []) = (Num 1, p) \<and>
   fst (getCategoryBit (calls cs (snd (getCategoryBit p c))) c) = fst (getCategoryBit p c) \<and>
   distinct (firstUses ds) \<and>
   set (firstUses ds) = {n. Some n \<in> set ds \<and> n \<noteq> [] \<and> n \<notin> set objectPrototypeKeys} \<and>
   (k < length (firstUses ds)
    \<longrightarrow> fst (getCategoryBit (calls ds newPhysics) (Some (firstUses ds ! k))) =
          (if k < 1023 then Num (2 ^ Suc k) else Infinity))"
proof -
  have r: "registered (calls ds newPhysics) (firstUses ds)"
    unfolding firstUses_def by (rule registered_calls [OF registered_new])
  have bit: "k < length (firstUses ds) \<longrightarrow>
      fst (getCategoryBit (calls ds newPhysics) (Some (firstUses ds ! k))) =
        (if k < 1023 then Num (2 ^ Suc k) else Infinity)"
  proof
    assume "k < length (firstUses ds)"
    then have "fst (getCategoryBit (calls ds newPhysics) (Some (firstUses ds ! k))) =
        jsPow2 (Suc k)"
      by (rule registered_bit [OF r])
    then show "fst (getCategoryBit (calls ds newPhysics) (Some (firstUses ds ! k))) =
        (if k < 1023 then Num (2 ^ Suc k) else Infinity)"
      by (auto simp: jsPow2_def)
  qed
  have d: "distinct (firstUses ds)"
    using r by (simp add: registered_def)
  have s: "set (firstUses ds) =
      {n. Some n \<in> set ds \<and> n \<noteq> [] \<and> n \<notin> set objectPrototypeKeys}"
    by (simp add: firstUses_def uses_set)
  show ?thesis
    using getCategoryBit_None [of p] getCategoryBit_empty [of p]
      getCategoryBit_idem [of cs p c] d s bit
    by blast
qed

lemma uses_fresh:
  "distinct (seen @ xs) \<Longrightarrow> [] \<notin> set xs \<Longrightarrow> set xs \<inter> set objectPrototypeKeys = {} \<Longrightarrow>
   uses seen (map Some xs) = seen @ xs"
  by (induction xs arbitrary: seen) auto

lemma aNames_set: "set (aNames n) = (\<lambda>i. replicate (Suc i) (CHR ''a'')) ` {..<n}"
  by (induction n) (auto simp: lessThan_Suc)

lemma aNames_length: "length (aNames n) = n"
  by (induction n) auto

lemma aNames_nth: "k < n \<Longrightarrow> aNames n ! k = replicate (Suc k) (CHR ''a'')"
  by (induction n) (auto simp: nth_append aNames_length less_Suc_eq)

lemma replicate_a_inj: "replicate i (CHR ''a'') = replicate j (CHR ''a'') \<Longrightarrow> i = j"
  by (metis length_replicate)

lemma aNames_distinct: "distinct (aNames n)"
proof (induction n)
  case 0
  then show ?case by simp
next
  case (Suc n)
  have "replicate (Suc n) (CHR ''a'') \<notin> set (aNames n)"
    using replicate_a_inj by (fastforce simp: aNames_set)
  then show ?case using Suc by simp
qed

lemma aNames_nonempty: "[] \<notin> set (aNames n)"
  by (auto simp: aNames_set)

lemma replicate_a_no_key: "replicate (Suc i) (CHR ''a'') \<notin> set objectPrototypeKeys"
  by (simp add: objectPrototypeKeys_def)

lemma aNames_no_key: "set (aNames n) \<inter> set objectPrototypeKeys = {}"
  using replicate_a_no_key by (auto simp: aNames_set)

lemma aNames_firstUses: "firstUses (map Some (aNames n)) = aNames n"
  by (simp add: firstUses_def uses_fresh aNames_distinct aNames_nonempty aNames_no_key)

lemma aNames_registered: "registered (calls (map Some (aNames n)) newPhysics) (aNames n)"
  using registered_calls [OF registered_new, of "map Some (aNames n)"]
  by (simp add: uses_fresh aNames_distinct aNames_nonempty aNames_no_key)

text \<open>
  The calls \<open>wall\<close>, \<open>undefined\<close>, \<open>constructor\<close>, \<open>ball\<close>, \<open>wall\<close>, empty: \<open>wall\<close> has 2
  and \<open>ball\<close> has 4. After the 1024 names \<open>a\<close>, \<open>aa\<close>, ..., the last of them has
  \<open>Infinity\<close>.
\<close>

theorem getCategoryBit_registry_witness:
  "firstUses exampleCalls = [''wall'', ''ball''] \<and>
   fst (getCategoryBit (calls exampleCalls newPhysics) (Some ''wall'')) = Num 2 \<and>
   fst (getCategoryBit (calls exampleCalls newPhysics) (Some ''ball'')) = Num 4 \<and>
   fst (getCategoryBit (calls exampleCalls (snd (getCategoryBit newPhysics (Some ''ball''))))
          (Some ''ball'')) = fst (getCategoryBit newPhysics (Some ''ball'')) \<and>
   fst (getCategoryBit (calls (map Some (aNames 1024)) newPhysics)
          (Some (aNames 1024 ! 1023))) = Infinity"
proof -
  have fu: "firstUses exampleCalls = [''wall'', ''ball'']"
    by (simp add: firstUses_def exampleCalls_def objectPrototypeKeys_def)
  have big: "1023 < length (firstUses (map Some (aNames 1024)))"
    by (simp add: aNames_firstUses aNames_length)
  show ?thesis
    using fu big
      getCategoryBit_registry [of newPhysics exampleCalls "Some ''ball''" exampleCalls 0]
      getCategoryBit_registry [of newPhysics exampleCalls "Some ''ball''" exampleCalls 1]
      getCategoryBit_registry [of newPhysics "[]" None "map Some (aNames 1024)" 1023]
    by (simp add: aNames_firstUses)
qed

lemma overflow_known:
  assumes "1023 \<le> k"
  shows "fst (getCategoryBit (calls (map Some (aNames (Suc k))) newPhysics)
            (Some (replicate (Suc k) (CHR ''a'')))) = Infinity"
proof -
  have "fst (getCategoryBit (calls (map Some (aNames (Suc k))) newPhysics)
            (Some (aNames (Suc k) ! k))) = jsPow2 (Suc k)"
    by (rule registered_bit [OF aNames_registered]) (simp add: aNames_length)
  moreover have "aNames (Suc k) ! k = replicate (Suc k) (CHR ''a'')"
    by (rule aNames_nth) simp
  ultimately show ?thesis
    using assms by (simp add: jsPow2_def)
qed

lemma overflow_next:
  assumes "1023 \<le> n"
  shows "fst (getCategoryBit (calls (map Some (aNames n)) newPhysics)
            (Some (replicate (Suc n) (CHR ''a'')))) = Infinity"
proof -
  let ?p = "calls (map Some (aNames n)) newPhysics"
  have r: "registered ?p (aNames n)" by (rule aNames_registered)
  have "replicate (Suc n) (CHR ''a'') \<notin> set (aNames n)"
    using replicate_a_inj by (fastforce simp: aNames_set)
  then have "allocates ?p (replicate (Suc n) (CHR ''a''))"
    using registered_fresh [OF r] replicate_a_no_key by simp
  moreover have "count ?p = Suc n"
    using r by (simp add: registered_def aNames_length)
  ultimately show ?thesis
    using assms by (simp add: getCategoryBit_new jsPow2_def)
qed

text \<open>
  C6 as written gives every distinct name its own power of two. \<open>2 ** _count\<close> is a
  double: after 1024 distinct names the 1024th and a 1025th name both have \<open>Infinity\<close>.
\<close>

theorem getCategoryBit_overflow_counterexample:
  "replicate 1024 (CHR ''a'') \<noteq> replicate 1025 (CHR ''a'') \<and>
   fst (getCategoryBit (calls (map Some (aNames 1024)) newPhysics)
          (Some (replicate 1024 (CHR ''a'')))) = Infinity \<and>
   fst (getCategoryBit (calls (map Some (aNames 1024)) newPhysics)
          (Some (replicate 1025 (CHR ''a'')))) = Infinity"
proof -
  have ne: "replicate 1024 (CHR ''a'') \<noteq> replicate 1025 (CHR ''a'')"
    using replicate_a_inj [of 1024 1025] by auto
  have a: "(1024::nat) = Suc 1023" and b: "(1025::nat) = Suc 1024" by simp_all
  have "fst (getCategoryBit (calls (map Some (aNames (Suc 1023))) newPhysics)
          (Some (replicate (Suc 1023) (CHR ''a'')))) = Infinity"
    by (rule overflow_known) simp
  moreover have "fst (getCategoryBit (calls (map Some (aNames 1024)) newPhysics)
          (Some (replicate (Suc 1024) (CHR ''a'')))) = Infinity"
    by (rule overflow_next) simp
  ultimately show ?thesis
    using ne by (simp only: a [symmetric] b [symmetric] simp_thms)
qed

text \<open>
  A name that a plain object inherits as a property, never stored: the read of the map
  is truthy, nothing is allocated and the inherited property is returned.
\<close>

lemma getCategoryBit_inherited:
  assumes "n \<in> set objectPrototypeKeys" and "categoryMap p n = None"
  shows "getCategoryBit p (Some n) = (Inherited n, p)"
proof -
  have "n \<noteq> []" using assms(1) by (auto simp: objectPrototypeKeys_def)
  moreover have "getProp (categoryMap p) n = Inherited n"
    using assms by (simp add: getProp_def)
  ultimately show ?thesis
    by (simp add: getCategoryBit_old allocates_def)
qed

lemma getCategoryBit_inherited_example:
  "getCategoryBit newPhysics (Some ''constructor'') = (Inherited ''constructor'', newPhysics)"
proof -
  have "''constructor'' \<in> set objectPrototypeKeys"
    by (simp add: objectPrototypeKeys_def)
  moreover have "categoryMap newPhysics ''constructor'' = None"
    by (simp add: newPhysics_def)
  ultimately show ?thesis
    using getCategoryBit_inherited [of "''constructor''" newPhysics] by blast
qed

section \<open>The accept mask\<close>

lemma maskLoop_snd: "snd (maskLoop ms num p) = calls (map Some ms) p"
  by (induction ms arbitrary: num p) (auto split: prod.split)

lemma maskLoop_Cons:
  "maskLoop (name # ms) num p =
     maskLoop ms (num OR toInt32 (fst (getCategoryBit p (Some name))))
       (snd (getCategoryBit p (Some name)))"
  by (simp split: prod.split)

lemma maskLoop_fold:
  "fst (maskLoop ms num p) =
     foldl (\<lambda>acc n. acc OR toInt32 (fst (getCategoryBit (calls (map Some ms) p) (Some n)))) num ms"
proof (induction ms arbitrary: num p)
  case Nil
  then show ?case by simp
next
  case (Cons name ms)
  let ?p1 = "snd (getCategoryBit p (Some name))"
  have same: "fst (getCategoryBit (calls (map Some ms) ?p1) (Some name)) =
      fst (getCategoryBit p (Some name))"
    by (rule getCategoryBit_idem)
  show ?case
    by (simp only: maskLoop_Cons Cons.IH list.map calls.simps foldl_Cons same)
qed

lemma allocates_after:
  assumes "allocates p name"
  shows "allocates (snd (getCategoryBit p (Some name))) n \<longleftrightarrow> allocates p n \<and> n \<noteq> name"
  using assms
  by (auto simp: getCategoryBit_new allocates_def getProp_def truthy_jsPow2)

lemma bit_after_old:
  assumes "allocates p name" and "\<not> allocates p n"
  shows "fst (getCategoryBit (snd (getCategoryBit p (Some name))) (Some n)) =
         fst (getCategoryBit p (Some n))"
proof -
  have ne: "n \<noteq> name" using assms by auto
  have "\<not> allocates (snd (getCategoryBit p (Some name))) n"
    using assms by (simp add: allocates_after)
  then show ?thesis
    using assms ne by (simp add: getCategoryBit_old) (simp add: getCategoryBit_new getProp_def)
qed

lemma bit_after_self:
  assumes "allocates p name"
  shows "fst (getCategoryBit (snd (getCategoryBit p (Some name))) (Some name)) = jsPow2 (count p)"
  using getCategoryBit_idem [of "[]" p "Some name"] assms
  by (simp add: getCategoryBit_new)

lemma ex_less_Suc_shift:
  "(\<exists>i < Suc k. Q (c + i)) \<longleftrightarrow> Q c \<or> (\<exists>i < k. Q (Suc c + i))"
proof
  assume "\<exists>i < Suc k. Q (c + i)"
  then obtain i where i: "i < Suc k" "Q (c + i)" by blast
  show "Q c \<or> (\<exists>i < k. Q (Suc c + i))"
  proof (cases i)
    case 0
    then show ?thesis using i by simp
  next
    case (Suc j)
    then have "j < k" "Q (Suc c + j)" using i by simp_all
    then show ?thesis by blast
  qed
next
  assume "Q c \<or> (\<exists>i < k. Q (Suc c + i))"
  then show "\<exists>i < Suc k. Q (c + i)"
  proof
    assume "Q c"
    then have "Q (c + 0)" by simp
    then show ?thesis by blast
  next
    assume "\<exists>i < k. Q (Suc c + i)"
    then obtain i where "i < k" "Q (Suc c + i)" by blast
    then have "Suc i < Suc k" "Q (c + Suc i)" by simp_all
    then show ?thesis by blast
  qed
qed

lemma maskLoop_bit:
  "bit (fst (maskLoop ms num p)) j \<longleftrightarrow>
     bit num j \<or>
     (\<exists>n \<in> set ms. \<not> allocates p n \<and> bit (toInt32 (fst (getCategoryBit p (Some n)))) j) \<or>
     (\<exists>i < card {n \<in> set ms. allocates p n}. bit (toInt32 (jsPow2 (count p + i))) j)"
proof (induction ms arbitrary: num p)
  case Nil
  then show ?case by simp
next
  case (Cons name ms)
  show ?case
  proof (cases "allocates p name")
    case False
    have p1: "snd (getCategoryBit p (Some name)) = p"
      using False by (simp add: getCategoryBit_old)
    have F: "{n \<in> set (name # ms). allocates p n} = {n \<in> set ms. allocates p n}"
      using False by auto
    show ?thesis
      unfolding maskLoop_Cons p1 Cons.IH F
      using False by (auto simp: bit_or_iff)
  next
    case True
    let ?p1 = "snd (getCategoryBit p (Some name))"
    let ?c = "count p"
    let ?F1 = "{n \<in> set ms. allocates ?p1 n}"
    have v: "fst (getCategoryBit p (Some name)) = jsPow2 ?c"
      using True by (simp add: getCategoryBit_new)
    have c1: "count ?p1 = Suc ?c"
      using True by (simp add: getCategoryBit_new)
    have F1: "?F1 = {n \<in> set ms. allocates p n} - {name}"
      using True by (auto simp: allocates_after)
    have F: "{n \<in> set (name # ms). allocates p n} = insert name ?F1"
      using True by (auto simp: allocates_after)
    have "name \<notin> ?F1" using True by (simp add: allocates_after)
    then have card: "card {n \<in> set (name # ms). allocates p n} = Suc (card ?F1)"
      unfolding F by simp
    have old: "(\<exists>n \<in> set ms. \<not> allocates ?p1 n \<and>
                  bit (toInt32 (fst (getCategoryBit ?p1 (Some n)))) j) \<longleftrightarrow>
               (\<exists>n \<in> set ms. \<not> allocates p n \<and>
                  bit (toInt32 (fst (getCategoryBit p (Some n)))) j) \<or>
               (name \<in> set ms \<and> bit (toInt32 (jsPow2 ?c)) j)"
    proof -
      have a: "\<And>n. \<not> allocates ?p1 n \<longleftrightarrow> \<not> allocates p n \<or> n = name"
        using True by (auto simp: allocates_after)
      have b: "\<And>n. \<not> allocates p n \<Longrightarrow>
          fst (getCategoryBit ?p1 (Some n)) = fst (getCategoryBit p (Some n))"
        using True by (rule bit_after_old)
      have s: "fst (getCategoryBit ?p1 (Some name)) = jsPow2 ?c"
        using True by (rule bit_after_self)
      show ?thesis
        unfolding a using b s True by metis
    qed
    have head: "(\<exists>n \<in> set (name # ms). \<not> allocates p n \<and>
                  bit (toInt32 (fst (getCategoryBit p (Some n)))) j) \<longleftrightarrow>
                (\<exists>n \<in> set ms. \<not> allocates p n \<and>
                  bit (toInt32 (fst (getCategoryBit p (Some n)))) j)"
      using True by auto
    have shift: "(\<exists>i < Suc (card ?F1). bit (toInt32 (jsPow2 (?c + i))) j) \<longleftrightarrow>
        bit (toInt32 (jsPow2 ?c)) j \<or> (\<exists>i < card ?F1. bit (toInt32 (jsPow2 (Suc ?c + i))) j)"
      by (rule ex_less_Suc_shift)
    have "bit (fst (maskLoop (name # ms) num p)) j \<longleftrightarrow>
        bit num j \<or> bit (toInt32 (jsPow2 ?c)) j \<or>
        (\<exists>n \<in> set ms. \<not> allocates ?p1 n \<and> bit (toInt32 (fst (getCategoryBit ?p1 (Some n)))) j) \<or>
        (\<exists>i < card ?F1. bit (toInt32 (jsPow2 (Suc ?c + i))) j)"
      unfolding maskLoop_Cons Cons.IH v c1 by (auto simp: bit_or_iff)
    then show ?thesis
      unfolding old head card shift by blast
  qed
qed

lemma maskLoop_set:
  assumes "set ms' = set ms"
  shows "fst (maskLoop ms' num p) = fst (maskLoop ms num p)"
  by (rule bit_eqI) (simp add: maskLoop_bit assms)

text \<open>
  C7. \<open>getCategoryMask\<close> returns 65535 and changes nothing when the list is absent or
  empty. For a non-empty list it returns the \<open>|\<close> of \<open>getCategoryBit\<close> over the names of
  the list, the bits being those the registry holds once the call is over (and holds
  from then on). The number returned is the same for any two lists with the same set of
  names, so neither duplicates nor the order of the list change it. \<open>|\<close> is
  JavaScript's: it works on the 32-bit integers \<open>toInt32\<close> makes of its operands.
\<close>

theorem getCategoryMask_or:
  "getCategoryMask p None = (65535, p) \<and>
   getCategoryMask p (Some []) = (65535, p) \<and>
   (ms \<noteq> [] \<longrightarrow>
      fst (getCategoryMask p (Some ms)) =
        foldl (\<lambda>acc n. acc OR
                 toInt32 (fst (getCategoryBit (snd (getCategoryMask p (Some ms))) (Some n))))
          0 ms) \<and>
   (ms \<noteq> [] \<and> set ms' = set ms \<longrightarrow>
      fst (getCategoryMask p (Some ms')) = fst (getCategoryMask p (Some ms)))"
proof (intro conjI impI)
  show "getCategoryMask p None = (65535, p)"
    by (simp add: getCategoryMask_def)
  show "getCategoryMask p (Some []) = (65535, p)"
    by (simp add: getCategoryMask_def)
next
  assume "ms \<noteq> []"
  then have m: "getCategoryMask p (Some ms) = maskLoop ms 0 p"
    by (simp add: getCategoryMask_def)
  show "fst (getCategoryMask p (Some ms)) =
        foldl (\<lambda>acc n. acc OR
                 toInt32 (fst (getCategoryBit (snd (getCategoryMask p (Some ms))) (Some n))))
          0 ms"
    unfolding m maskLoop_snd by (rule maskLoop_fold)
next
  assume h: "ms \<noteq> [] \<and> set ms' = set ms"
  then have "ms' \<noteq> []" by auto
  then have "getCategoryMask p (Some ms') = maskLoop ms' 0 p"
    and "getCategoryMask p (Some ms) = maskLoop ms 0 p"
    using h by (simp_all add: getCategoryMask_def)
  then show "fst (getCategoryMask p (Some ms')) = fst (getCategoryMask p (Some ms))"
    using maskLoop_set [of ms' ms 0 p] h by simp
qed

text \<open>On a new registry, \<open>[a, b]\<close> and \<open>[b, a, b]\<close> both give \<open>2 | 4 = 6\<close>.\<close>

theorem getCategoryMask_or_witness:
  "set [''b'', ''a'', ''b''] = set [''a'', ''b''] \<and>
   fst (getCategoryMask newPhysics (Some [''a'', ''b''])) = 6 \<and>
   fst (getCategoryMask newPhysics (Some [''b'', ''a'', ''b''])) = 6 \<and>
   fst (getCategoryBit (snd (getCategoryMask newPhysics (Some [''a'', ''b'']))) (Some ''a'')) = Num 2 \<and>
   fst (getCategoryBit (snd (getCategoryMask newPhysics (Some [''a'', ''b'']))) (Some ''b'')) = Num 4"
proof -
  have s: "set [''b'', ''a'', ''b''] = set [''a'', ''b'']" by auto
  have m: "getCategoryMask newPhysics (Some [''a'', ''b'']) =
      (6, newPhysics\<lparr>categoryMap := [''a'' \<mapsto> Num 2, ''b'' \<mapsto> Num 4], count := 3\<rparr>)"
    by (simp add: getCategoryMask_def getCategoryBit_def getProp_def objectPrototypeKeys_def
        jsPow2_def newPhysics_def)
  have a: "fst (getCategoryBit (newPhysics\<lparr>categoryMap := [''a'' \<mapsto> Num 2, ''b'' \<mapsto> Num 4], count := 3\<rparr>)
      (Some ''a'')) = Num 2"
    by (simp add: getCategoryBit_def getProp_def)
  have b: "fst (getCategoryBit (newPhysics\<lparr>categoryMap := [''a'' \<mapsto> Num 2, ''b'' \<mapsto> Num 4], count := 3\<rparr>)
      (Some ''b'')) = Num 4"
    by (simp add: getCategoryBit_def getProp_def)
  show ?thesis
    using s m a b getCategoryMask_or [of newPhysics "[''a'', ''b'']" "[''b'', ''a'', ''b'']"]
    by simp
qed

end
